theory Spec2Isabelle
  imports Complex_Main
begin

section \<open>The clicker game of \<^verbatim>\<open>Project/main.cpp\<close>\<close>

text \<open>
  The program keeps its state in global variables and advances it once per frame of the
  driver loop in \<^verbatim>\<open>main\<close>.  The globals are gathered in the record \<open>game\<close>, the two
  function-local statics of \<^verbatim>\<open>processInput\<close> in the record \<open>latches\<close>, and every function
  of the source takes the state and returns the updated one.  C++ \<^verbatim>\<open>float\<close> values are
  read as real numbers (no rounding, no NaN); decimal literals denote the rationals they
  are written as.
\<close>

subsection \<open>Constants and state\<close>

definition OPACITY_FADE_RATE :: real where "OPACITY_FADE_RATE = 0.2"
definition OPACITY_GAIN_RATE :: real where "OPACITY_GAIN_RATE = 0.25"
definition OPACITY_THRESHOLD :: real where "OPACITY_THRESHOLD = 0.55"
definition GAME_DURATION :: real where "GAME_DURATION = 10.0"
definition BOOM_DURATION :: real where "BOOM_DURATION = 2.5"

record game =
  pillarOpacity :: "real list"
  gameTimer :: real
  gameActive :: bool
  gameWon :: bool
  gameLost :: bool
  gameStatus :: string
  boomStarted :: bool
  boomTimer :: real
  componentDisappeared :: "bool list"
  bgRed :: real
  bgGreen :: real
  bgBlue :: real

record latches =
  spacePressed :: bool
  rPressed :: bool

text \<open>What the input and timing collaborators deliver in one frame: the state of the
  SPACE and R keys and the time since the previous frame.\<close>

record frame_input =
  space_down :: bool
  r_down :: bool
  deltaTime :: real

record BuildingComponent =
  comp_x :: real
  comp_y :: real
  comp_width :: real
  comp_height :: real
  comp_color :: "real \<times> real \<times> real"
  disappearTime :: real

definition mkComponent ::
  "real \<Rightarrow> real \<Rightarrow> real \<Rightarrow> real \<Rightarrow> real \<times> real \<times> real \<Rightarrow> real \<Rightarrow> BuildingComponent" where
  "mkComponent px py w h col disTime =
     \<lparr>comp_x = px, comp_y = py, comp_width = w, comp_height = h, comp_color = col,
      disappearTime = disTime\<rparr>"

definition createBuildingComponents :: "BuildingComponent list" where
  "createBuildingComponents =
   [mkComponent (-3.0) 0.5 2.0 5.0 (0.8, 0.4, 0.2) 0.35,
    mkComponent 0.0 0.2 4.4 2.0 (0.8, 0.4, 0.2) 0.4,
    mkComponent 3.0 0.1 2.0 3.5 (0.8, 0.4, 0.2) 0.35,
    mkComponent (-3.0) 2.8 2.2 0.5 (0.6, 0.3, 0.1) 0.32,
    mkComponent 3.0 1.95 2.2 0.5 (0.6, 0.3, 0.1) 0.32,
    mkComponent (-1.2) (-1.3) 0.4 1.2 (0.5, 0.25, 0.1) 0.86,
    mkComponent 1.2 (-1.3) 0.4 1.2 (0.5, 0.25, 0.1) 0.87,
    mkComponent (-0.6) (-1.35) 0.25 1.1 (0.4, 0.2, 0.08) 0.88,
    mkComponent 0.6 (-1.35) 0.25 1.1 (0.4, 0.2, 0.08) 0.89,
    mkComponent (-3.4) 1.5 0.35 0.35 (0.2, 0.5, 0.8) 0.5,
    mkComponent (-3.0) 1.5 0.35 0.35 (0.2, 0.5, 0.8) 0.52,
    mkComponent (-3.4) 0.5 0.35 0.35 (0.2, 0.5, 0.8) 0.54,
    mkComponent (-3.0) 0.5 0.35 0.35 (0.2, 0.5, 0.8) 0.56,
    mkComponent 3.0 1.0 0.35 0.35 (0.2, 0.5, 0.8) 0.5,
    mkComponent 3.4 1.0 0.35 0.35 (0.2, 0.5, 0.8) 0.52,
    mkComponent 3.0 0.0 0.35 0.35 (0.2, 0.5, 0.8) 0.54,
    mkComponent 3.4 0.0 0.35 0.35 (0.2, 0.5, 0.8) 0.56,
    mkComponent (-1.2) 0.7 0.35 0.35 (0.2, 0.5, 0.8) 0.6,
    mkComponent 0.0 0.7 0.35 0.35 (0.2, 0.5, 0.8) 0.62,
    mkComponent 1.2 0.7 0.35 0.35 (0.2, 0.5, 0.8) 0.64,
    mkComponent (-1.2) (-0.1) 0.35 0.35 (0.2, 0.5, 0.8) 0.65,
    mkComponent 0.0 (-0.1) 0.35 0.35 (0.2, 0.5, 0.8) 0.67,
    mkComponent 1.2 (-0.1) 0.35 0.35 (0.2, 0.5, 0.8) 0.69,
    mkComponent 0.0 (-1.95) 3.2 0.9 (1.0, 1.0, 1.0) 0.8,
    mkComponent (-1.3) (-1.95) 0.15 0.9 (1.0, 1.0, 1.0) 0.81,
    mkComponent (-0.6) (-1.95) 0.15 0.9 (1.0, 1.0, 1.0) 0.82,
    mkComponent 0.0 (-1.95) 0.15 0.9 (1.0, 1.0, 1.0) 0.83,
    mkComponent 0.6 (-1.95) 0.15 0.9 (1.0, 1.0, 1.0) 0.84,
    mkComponent 1.3 (-1.95) 0.15 0.9 (1.0, 1.0, 1.0) 0.85]"

text \<open>The values of the globals when the driver loop is entered: their initialisers, and
  \<^verbatim>\<open>componentDisappeared.resize(buildingComponents.size(), false)\<close>.\<close>

definition initial_game :: game where
  "initial_game =
     \<lparr>pillarOpacity = [1.0, 1.0, 1.0, 1.0], gameTimer = 0.0, gameActive = True,
      gameWon = False, gameLost = False, gameStatus = ''Keep Clicking!'',
      boomStarted = False, boomTimer = 0.0,
      componentDisappeared = replicate (length createBuildingComponents) False,
      bgRed = 1.0, bgGreen = 1.0, bgBlue = 1.0\<rparr>"

definition initial_latches :: latches where
  "initial_latches = \<lparr>spacePressed = False, rPressed = False\<rparr>"

subsection \<open>The update functions\<close>

text \<open>\<^verbatim>\<open>resetGame\<close>: both loops write every index of their array.\<close>

definition resetGame :: "game \<Rightarrow> game" where
  "resetGame g =
     g\<lparr>pillarOpacity := fold (\<lambda>i ps. ps[i := 1.0]) [0..<4] (pillarOpacity g),
       gameTimer := 0.0, gameActive := True, gameWon := False, gameLost := False,
       gameStatus := ''Keep Clicking!'', boomStarted := False, boomTimer := 0.0,
       bgRed := 1.0, bgGreen := 1.0, bgBlue := 1.0,
       componentDisappeared :=
         fold (\<lambda>i cs. cs[i := False]) [0..<length (componentDisappeared g)]
           (componentDisappeared g)\<rparr>"

text \<open>The body of the SPACE branch of \<^verbatim>\<open>processInput\<close>:
  \<^verbatim>\<open>pillarOpacity[i] = std::min(pillarOpacity[i] + OPACITY_GAIN_RATE, 1.0f)\<close>.\<close>

definition boostPillars :: "real list \<Rightarrow> real list" where
  "boostPillars ps0 = fold (\<lambda>i ps. ps[i := min (ps ! i + OPACITY_GAIN_RATE) 1.0]) [0..<4] ps0"

text \<open>\<^verbatim>\<open>processInput\<close> without the ESC key (which only ends the driver loop).  The latch
  \<open>spacePressed\<close> is set inside the guarded branch, as in the source.\<close>

definition processInput :: "frame_input \<Rightarrow> latches \<times> game \<Rightarrow> latches \<times> game" where
  "processInput inp lg =
     (let (l, g) = lg;
          (l1, g1) =
            (if space_down inp then
               (if \<not> spacePressed l \<and> gameActive g \<and> \<not> boomStarted g
                then (l\<lparr>spacePressed := True\<rparr>, g\<lparr>pillarOpacity := boostPillars (pillarOpacity g)\<rparr>)
                else (l, g))
             else (l\<lparr>spacePressed := False\<rparr>, g))
      in (if r_down inp then
            (if \<not> rPressed l1 then (l1\<lparr>rPressed := True\<rparr>, resetGame g1) else (l1, g1))
          else (l1\<lparr>rPressed := False\<rparr>, g1)))"

text \<open>The decay loop of \<^verbatim>\<open>updateGameLogic\<close>.\<close>

definition decayPillars :: "real \<Rightarrow> real list \<Rightarrow> real list" where
  "decayPillars dt ps0 =
     fold (\<lambda>i ps. ps[i := max (ps ! i - OPACITY_FADE_RATE * dt) 0.0]) [0..<4] ps0"

definition anyPillarFailed :: "real list \<Rightarrow> bool" where
  "anyPillarFailed ps = list_ex (\<lambda>i. ps ! i < OPACITY_THRESHOLD) [0..<4]"

definition updateGameLogic :: "real \<Rightarrow> game \<Rightarrow> game" where
  "updateGameLogic dt g =
     (if \<not> gameActive g \<or> boomStarted g then g
      else
        let g1 = g\<lparr>pillarOpacity := decayPillars dt (pillarOpacity g)\<rparr> in
        if anyPillarFailed (pillarOpacity g1) then
          g1\<lparr>gameActive := False, gameLost := True,
             gameStatus := ''LOST! Pillars collapsed!'',
             boomStarted := True, boomTimer := 0.0\<rparr>
        else
          let g2 = g1\<lparr>gameTimer := gameTimer g1 + dt\<rparr> in
          if gameTimer g2 \<ge> GAME_DURATION then
            g2\<lparr>gameActive := False, gameWon := True, gameStatus := ''WON! Campus Saved!''\<rparr>
          else g2)"

definition avgOpacity :: "game \<Rightarrow> real" where
  "avgOpacity g =
     (pillarOpacity g ! 0 + pillarOpacity g ! 1 + pillarOpacity g ! 2 + pillarOpacity g ! 3) / 4.0"

definition updateBackgroundColor :: "game \<Rightarrow> game" where
  "updateBackgroundColor g =
     (if \<not> gameLost g \<and> gameActive g then
        let opacityRatio = max ((avgOpacity g - OPACITY_THRESHOLD) / (1.0 - OPACITY_THRESHOLD)) 0.0
        in g\<lparr>bgRed := 1.0, bgGreen := opacityRatio, bgBlue := opacityRatio\<rparr>
      else if gameLost g then g\<lparr>bgRed := 1.0, bgGreen := 0.2, bgBlue := 0.2\<rparr>
      else if gameWon g then g\<lparr>bgRed := 0.2, bgGreen := 1.0, bgBlue := 0.2\<rparr>
      else g)"

definition updateBoomAnimation :: "real \<Rightarrow> game \<Rightarrow> game" where
  "updateBoomAnimation dt g =
     (let g1 = g\<lparr>boomTimer := boomTimer g + dt\<rparr> in
      if boomTimer g1 \<ge> BOOM_DURATION then g1\<lparr>boomStarted := False, boomTimer := 0.0\<rparr>
      else g1)"

subsection \<open>The render phase of the driver loop\<close>

text \<open>
  \<^verbatim>\<open>glm::translate\<close>, \<^verbatim>\<open>glm::rotate\<close> (about the z axis) and \<^verbatim>\<open>glm::scale\<close> multiply the
  model matrix from the right.  A model matrix is kept as the list of these factors in the
  order of the calls; \<open>apply_model\<close> is the plane map it denotes (the factor of the last
  call acts on a vertex first).
\<close>

datatype xform = Translate real real | Rotate real | Scale real real

fun apply_xform :: "xform \<Rightarrow> real \<times> real \<Rightarrow> real \<times> real" where
  "apply_xform (Translate tx ty) (px, py) = (px + tx, py + ty)"
| "apply_xform (Rotate a) (px, py) = (cos a * px - sin a * py, sin a * px + cos a * py)"
| "apply_xform (Scale kx ky) (px, py) = (kx * px, ky * py)"

definition apply_model :: "xform list \<Rightarrow> real \<times> real \<Rightarrow> real \<times> real" where
  "apply_model ops v = foldr apply_xform ops v"

record draw_call =
  dc_index :: nat
  dc_model :: "xform list"
  dc_color :: "real \<times> real \<times> real \<times> real"

text \<open>The colour sent with a piece: opaque, except for the pillars (indices 5 to 8) while
  the round is active and no collapse runs.\<close>

definition finalColor :: "game \<Rightarrow> nat \<Rightarrow> BuildingComponent \<Rightarrow> real \<times> real \<times> real \<times> real" where
  "finalColor g i piece =
     (let (cr, cg, cb) = comp_color piece in
      if i \<ge> 5 \<and> i \<le> 8 \<and> gameActive g \<and> \<not> boomStarted g
      then (cr, cg, cb, pillarOpacity g ! (i - 5))
      else (cr, cg, cb, 1.0))"

text \<open>The progress of a piece's disappearance, from the time since its disappear offset:
  \<^verbatim>\<open>std::min(timeSinceDisappear / 0.5f, 1.0f)\<close>.\<close>

definition disappearProgressOf :: "real \<Rightarrow> real" where
  "disappearProgressOf timeSinceDisappear = min (timeSinceDisappear / 0.5) 1.0"

text \<open>One iteration of the draw loop: the updated globals and the draw call, \<open>None\<close> where
  the source takes \<^verbatim>\<open>continue\<close>.\<close>

definition drawComponent :: "game \<Rightarrow> nat \<Rightarrow> BuildingComponent \<Rightarrow> game \<times> draw_call option" where
  "drawComponent g i piece =
     (let timeSinceDisappear = boomTimer g - disappearTime piece in
      if timeSinceDisappear > 0.0 \<and> boomStarted g then
        let disappearProgress = disappearProgressOf timeSinceDisappear in
        if disappearProgress \<ge> 1.0 then
          (g\<lparr>componentDisappeared := (componentDisappeared g)[i := True]\<rparr>, None)
        else
          let shakeAmount = (1.0 - disappearProgress) * 0.1;
              shakeX = sin (boomTimer g * 20.0) * shakeAmount;
              shakeY = cos (boomTimer g * 25.0) * shakeAmount;
              rotationAngle = disappearProgress * 3.14159 * 2.0;
              scaleAmount = 1.0 - (disappearProgress * 0.8)
          in (g, Some \<lparr>dc_index = i,
                dc_model = [Translate (comp_x piece) (comp_y piece), Translate shakeX shakeY,
                            Rotate rotationAngle, Scale scaleAmount scaleAmount,
                            Scale (comp_width piece) (comp_height piece)],
                dc_color = finalColor g i piece\<rparr>)
      else if \<not> componentDisappeared g ! i then
        (g, Some \<lparr>dc_index = i,
              dc_model = [Translate (comp_x piece) (comp_y piece),
                          Scale (comp_width piece) (comp_height piece)],
              dc_color = finalColor g i piece\<rparr>)
      else (g, None))"

primrec drawLoop :: "BuildingComponent list \<Rightarrow> nat \<Rightarrow> game \<Rightarrow> game \<times> draw_call list" where
  "drawLoop [] i g = (g, [])"
| "drawLoop (piece # pieces) i g =
     (let (g1, d) = drawComponent g i piece;
          (g2, ds) = drawLoop pieces (i + 1) g1
      in (g2, (case d of None \<Rightarrow> ds | Some c \<Rightarrow> c # ds)))"

text \<open>The colour of the last \<^verbatim>\<open>glClear\<close> of a frame: the background colour, overridden by
  the flash while \<open>boomStarted\<close>.\<close>

definition flashIntensity :: "real \<Rightarrow> real" where
  "flashIntensity t = sin (t * 6.28 * 5.0) * 0.5 + 0.5"

definition clearColor :: "game \<Rightarrow> real \<times> real \<times> real" where
  "clearColor g =
     (if boomStarted g then
        (0.5 + flashIntensity (boomTimer g) * 0.5,
         0.2 + flashIntensity (boomTimer g) * 0.3,
         0.2 + flashIntensity (boomTimer g) * 0.3)
      else (bgRed g, bgGreen g, bgBlue g))"

subsection \<open>One iteration of the driver loop, and runs of it\<close>

definition updatePhase :: "frame_input \<Rightarrow> latches \<times> game \<Rightarrow> latches \<times> game" where
  "updatePhase inp lg =
     (let (l1, g1) = processInput inp lg;
          g2 = updateGameLogic (deltaTime inp) g1;
          g3 = updateBackgroundColor g2;
          g4 = (if boomStarted g3 then updateBoomAnimation (deltaTime inp) g3 else g3)
      in (l1, g4))"

record frame_output =
  fo_clear :: "real \<times> real \<times> real"
  fo_draws :: "draw_call list"

definition mainLoopIteration ::
  "frame_input \<Rightarrow> latches \<times> game \<Rightarrow> (latches \<times> game) \<times> frame_output" where
  "mainLoopIteration inp lg =
     (let (l1, g1) = updatePhase inp lg;
          (g2, ds) = drawLoop createBuildingComponents 0 g1
      in ((l1, g2), \<lparr>fo_clear = clearColor g1, fo_draws = ds\<rparr>))"

fun mainLoop :: "latches \<times> game \<Rightarrow> frame_input list \<Rightarrow> latches \<times> game" where
  "mainLoop lg [] = lg"
| "mainLoop lg (inp # inps) = mainLoop (fst (mainLoopIteration inp lg)) inps"

definition frame :: "bool \<Rightarrow> bool \<Rightarrow> real \<Rightarrow> frame_input" where
  "frame sp r dt = \<lparr>space_down = sp, r_down = r, deltaTime = dt\<rparr>"

text \<open>The outcome of the round, read off the three flags of the source.\<close>

definition inProgress :: "game \<Rightarrow> bool" where
  "inProgress g = (gameActive g \<and> \<not> gameWon g \<and> \<not> gameLost g)"

definition won :: "game \<Rightarrow> bool" where
  "won g = (\<not> gameActive g \<and> gameWon g \<and> \<not> gameLost g)"

definition lost :: "game \<Rightarrow> bool" where
  "lost g = (\<not> gameActive g \<and> \<not> gameWon g \<and> gameLost g)"

text \<open>What holds of the globals in every state the driver loop reaches when frame times
  are not negative: the array sizes, one outcome at a time, a collapse only after a loss,
  opacities in the unit interval, no removed piece in a live round, and a removed piece
  is past its disappear window while the collapse runs.\<close>

definition game_inv :: "game \<Rightarrow> bool" where
  "game_inv g \<longleftrightarrow>
     length (pillarOpacity g) = 4 \<and>
     length (componentDisappeared g) = length createBuildingComponents \<and>
     (inProgress g \<or> won g \<or> lost g) \<and>
     (boomStarted g \<longrightarrow> lost g) \<and>
     (\<forall>p \<in> set (pillarOpacity g). 0 \<le> p \<and> p \<le> 1) \<and>
     (gameActive g \<longrightarrow> (\<forall>i < length (componentDisappeared g). \<not> componentDisappeared g ! i)) \<and>
     (\<forall>i < length (componentDisappeared g).
        componentDisappeared g ! i \<longrightarrow> boomStarted g \<longrightarrow>
        boomTimer g - disappearTime (createBuildingComponents ! i) \<ge> 0.5)"


text \<open>The sizes of the two arrays, which no function of the program changes.\<close>

definition arrays_ok :: "game \<Rightarrow> bool" where
  "arrays_ok g \<longleftrightarrow>
     length (pillarOpacity g) = 4 \<and>
     length (componentDisappeared g) = length createBuildingComponents"

subsection \<open>The background colour as the specification words it\<close>

text \<open>
  Section 4.4 of the specification gives the background colour as a function of the
  outcome and the average opacity.  \<open>backgroundColorSpec\<close> follows those words (with the
  clamp to the unit interval they state); it is compared with \<open>updateBackgroundColor\<close>
  below.  \<open>outcome_of\<close> reads the outcome off the flags of the source.
\<close>

datatype outcome = InProgress | Won | Lost

definition outcome_of :: "game \<Rightarrow> outcome" where
  "outcome_of g = (if gameLost g then Lost else if gameWon g then Won else InProgress)"

definition clamp :: "real \<Rightarrow> real \<Rightarrow> real \<Rightarrow> real" where
  "clamp v lo hi = min (max v lo) hi"

definition backgroundColorSpec :: "outcome \<Rightarrow> real \<Rightarrow> real \<times> real \<times> real" where
  "backgroundColorSpec oc avg =
     (case oc of
        InProgress \<Rightarrow>
          (let ratio = clamp ((avg - OPACITY_THRESHOLD) / (1 - OPACITY_THRESHOLD)) 0 1
           in (1, ratio, ratio))
      | Lost \<Rightarrow> (1, 0.2, 0.2)
      | Won \<Rightarrow> (0.2, 1, 0.2))"


definition background_matches :: "game \<Rightarrow> bool" where
  "background_matches g \<longleftrightarrow>
     (bgRed g, bgGreen g, bgBlue g) = backgroundColorSpec (outcome_of g) (avgOpacity g)"

subsection \<open>The flash colour as the specification words it\<close>

text \<open>The blend of two colours at ratio \<open>f\<close>, the first colour at \<open>f = 0\<close> and the second at
  \<open>f = 1\<close>: what ``blended between the lost color and a brighter variant'' is read as.\<close>

fun blend :: "real \<times> real \<times> real \<Rightarrow> real \<times> real \<times> real \<Rightarrow> real \<Rightarrow> real \<times> real \<times> real" where
  "blend (r1, g1, b1) (r2, g2, b2) f = (r1 + f * (r2 - r1), g1 + f * (g2 - g1), b1 + f * (b2 - b1))"

subsection \<open>Runs used as examples\<close>

text \<open>In \<open>win_run\<close> SPACE is pressed and released seven times, 1.25 seconds of decay after each
  press; \<open>held_state t\<close> is the state between two such presses at elapsed time \<open>t\<close>.\<close>

definition win_run :: "frame_input list" where
  "win_run =
     [frame True False 1.25, frame False False 0, frame True False 1.25, frame False False 0,
      frame True False 1.25, frame False False 0, frame True False 1.25, frame False False 0,
      frame True False 1.25, frame False False 0, frame True False 1.25, frame False False 0,
      frame True False 1.25, frame False False 0]"

definition held_state :: "real \<Rightarrow> game" where
  "held_state t =
     initial_game\<lparr>pillarOpacity := [0.75, 0.75, 0.75, 0.75], gameTimer := t,
       bgGreen := 4 / 9, bgBlue := 4 / 9\<rparr>"


text \<open>The frames of two other runs.  In \<open>held_boost_frames\<close> the round is lost in the
  first frame (and the collapse is over within it), SPACE goes down in the second frame and
  stays down, and R is pressed in the third.  In \<open>flash_frames\<close> the round is lost in the
  second frame, 0.01 seconds into which the collapse is drawn.\<close>

definition held_boost_frames :: "frame_input list" where
  "held_boost_frames = [frame False False 3, frame True False 0.1, frame True True 0.5]"

definition flash_frames :: "frame_input list" where
  "flash_frames = [frame False False 2.249, frame False False 0.01]"

section \<open>The line rasteriser of \<^verbatim>\<open>Lab_report_06/src/main.cpp\<close>\<close>

text \<open>
  \<^verbatim>\<open>Bresenham\<close> works on C++ \<^verbatim>\<open>int\<close>, 32 bits wide and signed.  A conversion from floating
  point whose value does not fit and an arithmetic result that does not fit are undefined
  behaviour; the model computes in the integers and returns the error \<open>IntOverflow\<close>
  wherever the source would leave the range of \<^verbatim>\<open>int\<close>.  The \<^verbatim>\<open>float\<close> arguments are read
  as real numbers.  The loop \<^verbatim>\<open>while (true)\<close> is a partial function: \<open>None\<close> is a run that
  never reaches the \<^verbatim>\<open>break\<close>.
\<close>

datatype bres_error = IntOverflow

definition INT_MIN :: int where "INT_MIN = - 2147483648"
definition INT_MAX :: int where "INT_MAX = 2147483647"

definition in_int :: "int \<Rightarrow> bool" where
  "in_int v \<longleftrightarrow> INT_MIN \<le> v \<and> v \<le> INT_MAX"

text \<open>\<^verbatim>\<open>round\<close> of \<^verbatim>\<open><cmath>\<close>: to the nearest integer, halves away from zero.\<close>

definition c_round :: "real \<Rightarrow> int" where
  "c_round v = (if 0 \<le> v then \<lfloor>v + 1 / 2\<rfloor> else \<lceil>v - 1 / 2\<rceil>)"

text \<open>\<^verbatim>\<open>int(round(v * scale))\<close> with \<^verbatim>\<open>scale = 1000\<close>, before the range check.\<close>

definition scaled :: "real \<Rightarrow> int" where
  "scaled v = c_round (v * 1000)"

text \<open>The body of the loop after the \<^verbatim>\<open>break\<close> test, on the variables \<open>err\<close>, \<open>x\<close>, \<open>y\<close>.\<close>

definition Bresenham_step ::
  "int \<Rightarrow> int \<Rightarrow> int \<Rightarrow> int \<Rightarrow> int \<times> int \<times> int \<Rightarrow> bres_error + int \<times> int \<times> int" where
  "Bresenham_step dx dy sx sy st =
     (let (err, x, y) = st in
      if \<not> in_int (2 * err) \<or> \<not> in_int (- dy) then Inl IntOverflow
      else
        let e2 = 2 * err in
        if e2 > - dy \<and> \<not> (in_int (err - dy) \<and> in_int (x + sx)) then Inl IntOverflow
        else
          let (err1, x1) = (if e2 > - dy then (err - dy, x + sx) else (err, x)) in
          if e2 < dx \<and> \<not> (in_int (err1 + dx) \<and> in_int (y + sy)) then Inl IntOverflow
          else
            let (err2, y2) = (if e2 < dx then (err1 + dx, y + sy) else (err1, y))
            in Inr (err2, x1, y2))"

text \<open>The loop: the three coordinates of the current point are appended to \<open>pts\<close>, then the
  loop ends at \<open>(X1, Y1)\<close> or takes a step.\<close>

partial_function (option) Bresenham_loop ::
  "int \<Rightarrow> int \<Rightarrow> int \<Rightarrow> int \<Rightarrow> int \<Rightarrow> int \<Rightarrow> int \<times> int \<times> int \<Rightarrow> real list
   \<Rightarrow> (bres_error + real list) option" where
  "Bresenham_loop X1 Y1 dx dy sx sy st pts =
     (let (err, x, y) = st;
          pts1 = pts @ [real_of_int x / 1000, real_of_int y / 1000, 0]
      in if x = X1 \<and> y = Y1 then Some (Inr pts1)
         else (case Bresenham_step dx dy sx sy st of
                 Inl e \<Rightarrow> Some (Inl e)
               | Inr st1 \<Rightarrow> Bresenham_loop X1 Y1 dx dy sx sy st1 pts1))"

definition Bresenham :: "real \<Rightarrow> real \<Rightarrow> real \<Rightarrow> real \<Rightarrow> (bres_error + real list) option" where
  "Bresenham x0 y0 x1 y1 =
     (let X0 = scaled x0; Y0 = scaled y0; X1 = scaled x1; Y1 = scaled y1 in
      if \<not> (in_int X0 \<and> in_int Y0 \<and> in_int X1 \<and> in_int Y1) then Some (Inl IntOverflow)
      else if \<not> (in_int (X1 - X0) \<and> in_int (Y1 - Y0)) then Some (Inl IntOverflow)
      else
        let dx = \<bar>X1 - X0\<bar>; dy = \<bar>Y1 - Y0\<bar> in
        if \<not> (in_int dx \<and> in_int dy \<and> in_int (dx - dy)) then Some (Inl IntOverflow)
        else
          let sx = (if X0 < X1 then 1 else - 1);
              sy = (if Y0 < Y1 then 1 else - 1)
          in Bresenham_loop X1 Y1 dx dy sx sy (dx - dy, X0, Y0) [])"

text \<open>What the loop keeps true after \<open>i\<close> steps in x and \<open>j\<close> steps in y: neither count
  exceeds its distance, the error term is \<open>(j + 1) * dx - (i + 1) * dy\<close>, and twice the
  error term stays between \<open>- 3 * dy\<close> and \<open>3 * dx\<close>.\<close>

definition bres_inv :: "int \<Rightarrow> int \<Rightarrow> int \<Rightarrow> int \<Rightarrow> int \<Rightarrow> bool" where
  "bres_inv dx dy i j err \<longleftrightarrow>
     0 \<le> i \<and> i \<le> dx \<and> 0 \<le> j \<and> j \<le> dy \<and>
     err = (j + 1) * dx - (i + 1) * dy \<and>
     - 3 * dy \<le> 2 * err \<and> 2 * err \<le> 3 * dx"

section \<open>Properties of the clicker game\<close>

subsection \<open>The loops over the arrays\<close>

lemma upt_0_4: "[0..<4] = [0, 1, 2, 3::nat]"
  by (simp add: upt_rec)

lemma length4E:
  assumes "length (ps::'a list) = 4"
  obtains a b c d where "ps = [a, b, c, d]"
proof -
  from assms obtain a r1 where 1: "ps = a # r1" "length r1 = 3"
    by (cases ps) auto
  then obtain b r2 where 2: "r1 = b # r2" "length r2 = 2"
    by (cases r1) auto
  then obtain c r3 where 3: "r2 = c # r3" "length r3 = 1"
    by (cases r2) auto
  then obtain d where 4: "r3 = [d]"
    by (cases r3) auto
  from 1 2 3 4 that show thesis by simp
qed

lemma decayPillars_map:
  "length ps = 4 \<Longrightarrow> decayPillars dt ps = map (\<lambda>p. max (p - OPACITY_FADE_RATE * dt) 0) ps"
  by (erule length4E) (simp add: decayPillars_def upt_0_4)

lemma boostPillars_map:
  "length ps = 4 \<Longrightarrow> boostPillars ps = map (\<lambda>p. min (p + OPACITY_GAIN_RATE) 1) ps"
  by (erule length4E) (simp add: boostPillars_def upt_0_4)

lemma anyPillarFailed_iff:
  "length ps = 4 \<Longrightarrow> anyPillarFailed ps \<longleftrightarrow> (\<exists>p \<in> set ps. p < OPACITY_THRESHOLD)"
  by (erule length4E) (auto simp add: anyPillarFailed_def upt_0_4)

lemma fold_update_all:
  "n \<le> length cs \<Longrightarrow> fold (\<lambda>i xs. xs[i := v]) [0..<n] cs = replicate n v @ drop n cs"
proof (induction n)
  case 0
  then show ?case by simp
next
  case (Suc n)
  then have "n < length cs" by simp
  then have "drop n cs = cs ! n # drop (Suc n) cs"
    by (simp add: Cons_nth_drop_Suc)
  then have "(replicate n v @ drop n cs)[n := v] = replicate n v @ v # drop (Suc n) cs"
    by (simp add: list_update_append)
  with Suc show ?case
    by (simp add: replicate_append_same)
qed

lemma resetGame_eq:
  "length (pillarOpacity g) = 4 \<Longrightarrow>
   resetGame g =
     g\<lparr>pillarOpacity := [1, 1, 1, 1], gameTimer := 0, gameActive := True, gameWon := False,
       gameLost := False, gameStatus := ''Keep Clicking!'', boomStarted := False,
       boomTimer := 0, bgRed := 1, bgGreen := 1, bgBlue := 1,
       componentDisappeared := replicate (length (componentDisappeared g)) False\<rparr>"
  by (erule length4E) (simp add: resetGame_def fold_update_all upt_0_4)

lemma length_createBuildingComponents: "length createBuildingComponents = 29"
  by (simp add: createBuildingComponents_def)


subsection \<open>The invariant\<close>

lemma game_inv_initial: "game_inv initial_game"
  by (simp add: game_inv_def initial_game_def inProgress_def)

lemma game_inv_resetGame: "game_inv g \<Longrightarrow> game_inv (resetGame g)"
  by (simp add: game_inv_def resetGame_eq inProgress_def)

lemma boostPillars_range:
  assumes "length ps = 4" and "\<forall>p \<in> set ps. 0 \<le> p \<and> p \<le> 1"
  shows "\<forall>p \<in> set (boostPillars ps). 0 \<le> p \<and> p \<le> 1"
proof
  fix q assume "q \<in> set (boostPillars ps)"
  then obtain p where "p \<in> set ps" and q: "q = min (p + OPACITY_GAIN_RATE) 1"
    using assms(1) by (auto simp add: boostPillars_map)
  with assms(2) have "0 \<le> p" by blast
  then show "0 \<le> q \<and> q \<le> 1"
    by (simp add: q OPACITY_GAIN_RATE_def)
qed

lemma decayPillars_range:
  assumes "length ps = 4" and "\<forall>p \<in> set ps. 0 \<le> p \<and> p \<le> 1" and "0 \<le> dt"
  shows "\<forall>p \<in> set (decayPillars dt ps). 0 \<le> p \<and> p \<le> 1"
proof
  fix q assume "q \<in> set (decayPillars dt ps)"
  then obtain p where "p \<in> set ps" and q: "q = max (p - OPACITY_FADE_RATE * dt) 0"
    using assms(1) by (auto simp add: decayPillars_map)
  with assms(2) have "p \<le> 1" by blast
  moreover have "0 \<le> OPACITY_FADE_RATE * dt"
    using assms(3) by (simp add: OPACITY_FADE_RATE_def)
  ultimately show "0 \<le> q \<and> q \<le> 1"
    by (simp add: q)
qed

lemma length_boostPillars: "length ps = 4 \<Longrightarrow> length (boostPillars ps) = 4"
  by (simp add: boostPillars_map)

lemma length_decayPillars: "length ps = 4 \<Longrightarrow> length (decayPillars dt ps) = 4"
  by (simp add: decayPillars_map)

lemma game_inv_pillarOpacity:
  "game_inv g \<Longrightarrow> length ps = 4 \<Longrightarrow> \<forall>p \<in> set ps. 0 \<le> p \<and> p \<le> 1 \<Longrightarrow>
   game_inv (g\<lparr>pillarOpacity := ps\<rparr>)"
  by (auto simp add: game_inv_def inProgress_def won_def lost_def)

lemma game_inv_boost:
  "game_inv g \<Longrightarrow> game_inv (g\<lparr>pillarOpacity := boostPillars (pillarOpacity g)\<rparr>)"
  by (rule game_inv_pillarOpacity)
     (auto simp add: game_inv_def length_boostPillars dest: boostPillars_range [rule_format])

lemma game_inv_decay:
  "0 \<le> dt \<Longrightarrow> game_inv g \<Longrightarrow> game_inv (g\<lparr>pillarOpacity := decayPillars dt (pillarOpacity g)\<rparr>)"
  by (rule game_inv_pillarOpacity)
     (auto simp add: game_inv_def length_decayPillars dest: decayPillars_range [rule_format])

lemma game_inv_processInput:
  "game_inv g \<Longrightarrow> game_inv (snd (processInput inp (l, g)))"
  by (simp add: processInput_def Let_def game_inv_resetGame game_inv_boost)

lemma game_inv_gameTimer: "game_inv g \<Longrightarrow> game_inv (g\<lparr>gameTimer := t\<rparr>)"
  by (auto simp add: game_inv_def inProgress_def won_def lost_def)

lemma game_inv_lose:
  assumes "game_inv g" and "gameActive g"
  shows "game_inv (g\<lparr>gameActive := False, gameLost := True, gameStatus := s,
               boomStarted := True, boomTimer := 0\<rparr>)"
proof -
  from assms have flags: "\<forall>i < length (componentDisappeared g). \<not> componentDisappeared g ! i"
    by (simp add: game_inv_def)
  from assms have "inProgress g"
    by (auto simp add: game_inv_def won_def lost_def)
  then have nw: "\<not> gameWon g"
    by (simp add: inProgress_def)
  from assms(1) have "length (pillarOpacity g) = 4"
    and "length (componentDisappeared g) = length createBuildingComponents"
    and "\<forall>p \<in> set (pillarOpacity g). 0 \<le> p \<and> p \<le> 1"
    by (simp_all add: game_inv_def)
  with flags nw show ?thesis
    by (simp add: game_inv_def lost_def)
qed

lemma game_inv_win:
  "game_inv g \<Longrightarrow> gameActive g \<Longrightarrow>
   game_inv (g\<lparr>gameActive := False, gameWon := True, gameStatus := s\<rparr>)"
  by (auto simp add: game_inv_def inProgress_def won_def lost_def)

lemma game_inv_updateGameLogic:
  "0 \<le> dt \<Longrightarrow> game_inv g \<Longrightarrow> game_inv (updateGameLogic dt g)"
  by (simp add: updateGameLogic_def Let_def game_inv_decay game_inv_gameTimer
        game_inv_lose game_inv_win)

lemma game_inv_updateBackgroundColor:
  "game_inv g \<Longrightarrow> game_inv (updateBackgroundColor g)"
  by (auto simp add: updateBackgroundColor_def Let_def game_inv_def inProgress_def won_def lost_def)

lemma game_inv_updateBoomAnimation:
  "0 \<le> dt \<Longrightarrow> game_inv g \<Longrightarrow> game_inv (updateBoomAnimation dt g)"
  by (auto simp add: updateBoomAnimation_def Let_def game_inv_def inProgress_def won_def lost_def)


subsection \<open>The draw loop\<close>

lemma drawComponent_fst:
  "fst (drawComponent g i c) =
     (if boomStarted g \<and> boomTimer g - disappearTime c \<ge> 0.5
      then g\<lparr>componentDisappeared := (componentDisappeared g)[i := True]\<rparr> else g)"
  by (simp add: drawComponent_def disappearProgressOf_def Let_def min_def)

lemma game_inv_set_flag:
  assumes "game_inv g" and "boomStarted g"
    and "boomTimer g - disappearTime (createBuildingComponents ! i) \<ge> 0.5"
  shows "game_inv (g\<lparr>componentDisappeared := (componentDisappeared g)[i := True]\<rparr>)"
proof -
  from assms(1,2) have "lost g"
    by (simp add: game_inv_def)
  then have na: "\<not> gameActive g"
    by (simp add: lost_def)
  from assms(1) have len: "length (pillarOpacity g) = 4"
    "length (componentDisappeared g) = length createBuildingComponents"
    and rng: "\<forall>p \<in> set (pillarOpacity g). 0 \<le> p \<and> p \<le> 1"
    and K: "\<forall>j < length (componentDisappeared g).
        componentDisappeared g ! j \<longrightarrow> boomStarted g \<longrightarrow>
        boomTimer g - disappearTime (createBuildingComponents ! j) \<ge> 0.5"
    by (simp_all add: game_inv_def)
  have "\<forall>j < length (componentDisappeared g).
        (componentDisappeared g)[i := True] ! j \<longrightarrow>
        boomTimer g - disappearTime (createBuildingComponents ! j) \<ge> 0.5"
  proof (intro allI impI)
    fix j
    assume j: "j < length (componentDisappeared g)"
      and set: "(componentDisappeared g)[i := True] ! j"
    show "boomTimer g - disappearTime (createBuildingComponents ! j) \<ge> 0.5"
    proof (cases "j = i")
      case True
      with assms(3) show ?thesis by simp
    next
      case False
      with set have "componentDisappeared g ! j" by simp
      with K j assms(2) show ?thesis by blast
    qed
  qed
  with len rng \<open>lost g\<close> na show ?thesis
    by (simp add: game_inv_def inProgress_def won_def lost_def)
qed

lemma game_inv_drawComponent:
  "game_inv g \<Longrightarrow> game_inv (fst (drawComponent g i (createBuildingComponents ! i)))"
  by (simp add: drawComponent_fst game_inv_set_flag)

lemma drop_eq_ConsD:
  assumes "drop k xs = c # cs"
  shows "k < length xs \<and> c = xs ! k \<and> cs = drop (Suc k) xs"
proof -
  from assms have k: "k < length xs"
    by (cases "k < length xs") auto
  then have "drop k xs = xs ! k # drop (Suc k) xs"
    by (simp add: Cons_nth_drop_Suc)
  with assms k show ?thesis by simp
qed

lemma fst_drawLoop_Cons:
  "fst (drawLoop (c # cs) k g) = fst (drawLoop cs (Suc k) (fst (drawComponent g k c)))"
  by (simp add: split_beta Let_def)

lemma game_inv_drawLoop:
  "game_inv g \<Longrightarrow> cs = drop k createBuildingComponents \<Longrightarrow> game_inv (fst (drawLoop cs k g))"
proof (induction cs arbitrary: k g)
  case Nil
  then show ?case by simp
next
  case (Cons c cs)
  from Cons.prems(2) have c: "c = createBuildingComponents ! k"
    and cs: "cs = drop (Suc k) createBuildingComponents"
    using drop_eq_ConsD [of k createBuildingComponents c cs] by simp_all
  have "game_inv (fst (drawComponent g k c))"
    unfolding c using Cons.prems(1) by (rule game_inv_drawComponent)
  then have "game_inv (fst (drawLoop cs (Suc k) (fst (drawComponent g k c))))"
    using cs by (rule Cons.IH)
  then show ?case
    by (simp only: fst_drawLoop_Cons)
qed

text \<open>The draw loop writes \<open>componentDisappeared\<close> only, and only sets flags.\<close>

lemma drawLoop_frame:
  "\<exists>fl. fst (drawLoop cs k g) = g\<lparr>componentDisappeared := fl\<rparr> \<and>
        length fl = length (componentDisappeared g) \<and>
        (\<forall>j. componentDisappeared g ! j \<longrightarrow> j < length fl \<longrightarrow> fl ! j)"
proof (induction cs arbitrary: k g)
  case Nil
  have "g = g\<lparr>componentDisappeared := componentDisappeared g\<rparr>" by simp
  then show ?case by (metis drawLoop.simps(1) fst_conv)
next
  case (Cons c cs)
  define g1 where "g1 = fst (drawComponent g k c)"
  have g1: "g1 = g \<or> g1 = g\<lparr>componentDisappeared := (componentDisappeared g)[k := True]\<rparr>"
    by (simp add: g1_def drawComponent_fst)
  from Cons.IH [of "Suc k" g1] obtain fl where
    fl: "fst (drawLoop cs (Suc k) g1) = g1\<lparr>componentDisappeared := fl\<rparr>"
      "length fl = length (componentDisappeared g1)"
      "\<forall>j. componentDisappeared g1 ! j \<longrightarrow> j < length fl \<longrightarrow> fl ! j"
    by blast
  have 1: "fst (drawLoop (c # cs) k g) = g\<lparr>componentDisappeared := fl\<rparr>"
  proof -
    have "fst (drawLoop (c # cs) k g) = fst (drawLoop cs (Suc k) g1)"
      by (simp only: fst_drawLoop_Cons g1_def)
    moreover have "g1\<lparr>componentDisappeared := fl\<rparr> = g\<lparr>componentDisappeared := fl\<rparr>"
      using g1 by auto
    ultimately show ?thesis
      using fl(1) by simp
  qed
  have 2: "length fl = length (componentDisappeared g)"
    using g1 fl(2) by auto
  have 3: "\<forall>j. componentDisappeared g ! j \<longrightarrow> j < length fl \<longrightarrow> fl ! j"
  proof (intro allI impI)
    fix j
    assume a: "componentDisappeared g ! j" and j: "j < length fl"
    with 2 have "(componentDisappeared g)[k := True] ! j"
      by (cases "j = k") simp_all
    with a g1 have "componentDisappeared g1 ! j" by auto
    with fl(3) j show "fl ! j" by blast
  qed
  from 1 2 3 show ?case by blast
qed

lemma drawLoop_fields:
  "pillarOpacity (fst (drawLoop cs k g)) = pillarOpacity g"
  "gameTimer (fst (drawLoop cs k g)) = gameTimer g"
  "gameActive (fst (drawLoop cs k g)) = gameActive g"
  "gameWon (fst (drawLoop cs k g)) = gameWon g"
  "gameLost (fst (drawLoop cs k g)) = gameLost g"
  "gameStatus (fst (drawLoop cs k g)) = gameStatus g"
  "boomStarted (fst (drawLoop cs k g)) = boomStarted g"
  "boomTimer (fst (drawLoop cs k g)) = boomTimer g"
  "bgRed (fst (drawLoop cs k g)) = bgRed g"
  "bgGreen (fst (drawLoop cs k g)) = bgGreen g"
  "bgBlue (fst (drawLoop cs k g)) = bgBlue g"
  "length (componentDisappeared (fst (drawLoop cs k g))) = length (componentDisappeared g)"
  using drawLoop_frame [of cs k g] by auto

subsection \<open>Iterations of the driver loop\<close>

lemma game_inv_updatePhase:
  "0 \<le> deltaTime inp \<Longrightarrow> game_inv g \<Longrightarrow> game_inv (snd (updatePhase inp (l, g)))"
  by (simp add: updatePhase_def Let_def split_beta game_inv_processInput
        game_inv_updateGameLogic game_inv_updateBackgroundColor game_inv_updateBoomAnimation)

lemma snd_fst_mainLoopIteration:
  "snd (fst (mainLoopIteration inp lg)) =
     fst (drawLoop createBuildingComponents 0 (snd (updatePhase inp lg)))"
  by (simp add: mainLoopIteration_def split_beta Let_def)

lemma game_inv_mainLoopIteration:
  "0 \<le> deltaTime inp \<Longrightarrow> game_inv g \<Longrightarrow> game_inv (snd (fst (mainLoopIteration inp (l, g))))"
  by (simp add: snd_fst_mainLoopIteration game_inv_drawLoop game_inv_updatePhase)

lemma game_inv_mainLoop:
  "\<forall>inp \<in> set inps. 0 \<le> deltaTime inp \<Longrightarrow> game_inv (snd lg) \<Longrightarrow>
   game_inv (snd (mainLoop lg inps))"
proof (induction inps arbitrary: lg)
  case Nil
  then show ?case by simp
next
  case (Cons inp inps)
  obtain l g where lg: "lg = (l, g)" by (cases lg)
  from Cons.prems have "game_inv (snd (fst (mainLoopIteration inp lg)))"
    by (simp add: lg game_inv_mainLoopIteration)
  with Cons.prems(1) show ?case
    by (simp add: Cons.IH)
qed

section \<open>The claims about the clicker game\<close>

lemma updateGameLogic_live:
  assumes "gameActive g" and "\<not> boomStarted g" and "length (pillarOpacity g) = 4"
  shows "updateGameLogic dt g =
     (let ps = map (\<lambda>p. max (p - OPACITY_FADE_RATE * dt) 0) (pillarOpacity g) in
      if \<exists>p \<in> set ps. p < OPACITY_THRESHOLD then
        g\<lparr>pillarOpacity := ps, gameActive := False, gameLost := True,
          gameStatus := ''LOST! Pillars collapsed!'', boomStarted := True, boomTimer := 0\<rparr>
      else if gameTimer g + dt \<ge> GAME_DURATION then
        g\<lparr>pillarOpacity := ps, gameTimer := gameTimer g + dt, gameActive := False,
          gameWon := True, gameStatus := ''WON! Campus Saved!''\<rparr>
      else g\<lparr>pillarOpacity := ps, gameTimer := gameTimer g + dt\<rparr>)"
  using assms
  by (simp add: updateGameLogic_def Let_def decayPillars_map anyPillarFailed_iff)

lemma updateGameLogic_idle:
  "\<not> gameActive g \<or> boomStarted g \<Longrightarrow> updateGameLogic dt g = g"
  by (simp add: updateGameLogic_def)

text \<open>
  Claim C1.  A frame taken while the round is in progress and no collapse runs first decays
  the four opacities.  If a decayed opacity is below the survival threshold 0.55, the round
  is lost and the collapse starts with its clock at 0, the elapsed time is left as it was
  and the round is not won, whatever the elapsed time would have become.  Otherwise the
  round is not lost, the frame time is added to the elapsed time, and the round is won or
  still in progress.
\<close>

theorem updateGameLogic_lose_before_win:
  assumes "inProgress g" and "\<not> boomStarted g" and "length (pillarOpacity g) = 4"
  shows "let g' = updateGameLogic dt g;
             ps = map (\<lambda>p. max (p - OPACITY_FADE_RATE * dt) 0) (pillarOpacity g) in
         OPACITY_THRESHOLD = 0.55 \<and> pillarOpacity g' = ps \<and>
         (if \<exists>p \<in> set ps. p < OPACITY_THRESHOLD
          then lost g' \<and> boomStarted g' \<and> boomTimer g' = 0 \<and> gameTimer g' = gameTimer g
          else \<not> gameLost g' \<and> \<not> boomStarted g' \<and> gameTimer g' = gameTimer g + dt \<and>
               (if gameTimer g + dt \<ge> GAME_DURATION then won g' else inProgress g'))"
proof -
  from assms(1) have "gameActive g" and "\<not> gameWon g" and "\<not> gameLost g"
    by (simp_all add: inProgress_def)
  with assms(2,3) show ?thesis
    by (simp add: updateGameLogic_live Let_def lost_def won_def inProgress_def
          OPACITY_THRESHOLD_def)
qed

theorem updateGameLogic_lose_before_win_witness:
  "inProgress initial_game \<and> \<not> boomStarted initial_game \<and>
   length (pillarOpacity initial_game) = 4 \<and>
   GAME_DURATION \<le> gameTimer initial_game + 12 \<and>
   pillarOpacity (updateGameLogic 12 initial_game) = [0, 0, 0, 0] \<and>
   lost (updateGameLogic 12 initial_game) \<and>
   \<not> gameWon (updateGameLogic 12 initial_game) \<and>
   boomStarted (updateGameLogic 12 initial_game) \<and>
   boomTimer (updateGameLogic 12 initial_game) = 0 \<and>
   gameTimer (updateGameLogic 12 initial_game) = 0"
proof -
  have h1: "inProgress initial_game" and h2: "\<not> boomStarted initial_game"
    and h3: "length (pillarOpacity initial_game) = 4"
    by (simp_all add: initial_game_def inProgress_def)
  have h4: "GAME_DURATION \<le> gameTimer initial_game + 12"
    by (simp add: initial_game_def GAME_DURATION_def)
  have ps: "map (\<lambda>p. max (p - OPACITY_FADE_RATE * 12) 0) (pillarOpacity initial_game) = [0, 0, 0, 0]"
    by (simp add: initial_game_def OPACITY_FADE_RATE_def)
  from updateGameLogic_lose_before_win [OF h1 h2 h3, of 12] h1 h2 h3 h4 show ?thesis
    by (simp add: Let_def ps OPACITY_THRESHOLD_def lost_def) (simp add: initial_game_def)
qed

text \<open>
  Claim C5.  When a frame of a round in progress leaves every decayed opacity at or above
  the threshold and brings the elapsed time to exactly the round duration of 10 seconds,
  the round is won in that frame: the comparison with the duration is inclusive.
\<close>

theorem updateGameLogic_win_at_duration:
  assumes "inProgress g" and "\<not> boomStarted g" and "length (pillarOpacity g) = 4"
    and "\<forall>p \<in> set (pillarOpacity g). OPACITY_THRESHOLD \<le> max (p - OPACITY_FADE_RATE * dt) 0"
    and "gameTimer g + dt = GAME_DURATION"
  shows "won (updateGameLogic dt g) \<and> gameTimer (updateGameLogic dt g) = 10 \<and>
         gameStatus (updateGameLogic dt g) = ''WON! Campus Saved!''"
proof -
  from assms(1) have "gameActive g" and "\<not> gameWon g" and "\<not> gameLost g"
    by (simp_all add: inProgress_def)
  moreover from assms(4)
  have "\<not> (\<exists>p \<in> set (map (\<lambda>p. max (p - OPACITY_FADE_RATE * dt) 0) (pillarOpacity g)).
            p < OPACITY_THRESHOLD)"
    by (auto simp add: not_less)
  ultimately show ?thesis
    using assms(2,3,5)
    by (simp add: updateGameLogic_live Let_def won_def GAME_DURATION_def del: set_map)
qed

subsection \<open>Array sizes\<close>

lemma arrays_ok_initial: "arrays_ok initial_game"
  by (simp add: arrays_ok_def initial_game_def)

lemma game_inv_arrays_ok: "game_inv g \<Longrightarrow> arrays_ok g"
  by (simp add: game_inv_def arrays_ok_def)

lemma arrays_ok_processInput: "arrays_ok g \<Longrightarrow> arrays_ok (snd (processInput inp (l, g)))"
  by (simp add: processInput_def Let_def arrays_ok_def resetGame_eq length_boostPillars)

lemma arrays_ok_updateGameLogic: "arrays_ok g \<Longrightarrow> arrays_ok (updateGameLogic dt g)"
  by (simp add: updateGameLogic_def Let_def arrays_ok_def length_decayPillars)

lemma arrays_ok_updateBackgroundColor: "arrays_ok g \<Longrightarrow> arrays_ok (updateBackgroundColor g)"
  by (simp add: updateBackgroundColor_def Let_def arrays_ok_def)

lemma arrays_ok_updateBoomAnimation: "arrays_ok g \<Longrightarrow> arrays_ok (updateBoomAnimation dt g)"
  by (simp add: updateBoomAnimation_def Let_def arrays_ok_def)

lemma arrays_ok_drawLoop: "arrays_ok g \<Longrightarrow> arrays_ok (fst (drawLoop cs k g))"
  by (simp add: arrays_ok_def drawLoop_fields)

lemma arrays_ok_mainLoopIteration:
  "arrays_ok g \<Longrightarrow> arrays_ok (snd (fst (mainLoopIteration inp (l, g))))"
  by (simp add: snd_fst_mainLoopIteration updatePhase_def Let_def split_beta
        arrays_ok_drawLoop arrays_ok_processInput arrays_ok_updateGameLogic
        arrays_ok_updateBackgroundColor arrays_ok_updateBoomAnimation)

lemma arrays_ok_mainLoop: "arrays_ok (snd lg) \<Longrightarrow> arrays_ok (snd (mainLoop lg inps))"
proof (induction inps arbitrary: lg)
  case Nil
  then show ?case by simp
next
  case (Cons inp inps)
  obtain l g where lg: "lg = (l, g)" by (cases lg)
  from Cons.prems have "arrays_ok (snd (fst (mainLoopIteration inp lg)))"
    by (simp add: lg arrays_ok_mainLoopIteration)
  then show ?case
    by (simp add: Cons.IH)
qed

lemma resetGame_initial: "arrays_ok g \<Longrightarrow> resetGame g = initial_game"
  by (simp add: arrays_ok_def resetGame_eq initial_game_def)

text \<open>
  Claim C6.  From whatever state the driver loop has reached, after any frames with any keys and
  frame times, \<open>resetGame\<close> yields exactly the state the loop was entered with, and so does
  a frame in which the R key goes down.  In that state the four opacities are 1, the elapsed
  time is 0, the round is in progress, no collapse runs and its clock is 0, no piece is
  removed, the status message is the default and the background is white.
\<close>

theorem resetGame_restores_initial:
  "resetGame (snd (mainLoop (initial_latches, initial_game) inps)) = initial_game \<and>
   snd (processInput (frame sp True dt)
          (l\<lparr>rPressed := False\<rparr>, snd (mainLoop (initial_latches, initial_game) inps)))
     = initial_game \<and>
   pillarOpacity initial_game = [1, 1, 1, 1] \<and> gameTimer initial_game = 0 \<and>
   inProgress initial_game \<and> \<not> boomStarted initial_game \<and> boomTimer initial_game = 0 \<and>
   componentDisappeared initial_game = replicate 29 False \<and>
   gameStatus initial_game = ''Keep Clicking!'' \<and>
   (bgRed initial_game, bgGreen initial_game, bgBlue initial_game) = (1, 1, 1)"
proof -
  let ?g = "snd (mainLoop (initial_latches, initial_game) inps)"
  have ok: "arrays_ok ?g"
    by (rule arrays_ok_mainLoop) (simp add: arrays_ok_initial)
  then have 1: "resetGame ?g = initial_game"
    by (rule resetGame_initial)
  have "arrays_ok (?g\<lparr>pillarOpacity := boostPillars (pillarOpacity ?g)\<rparr>)"
    using ok by (simp add: arrays_ok_def length_boostPillars)
  then have 2: "snd (processInput (frame sp True dt) (l\<lparr>rPressed := False\<rparr>, ?g)) = initial_game"
    using ok by (simp add: processInput_def Let_def frame_def resetGame_initial)
  have 3: "pillarOpacity initial_game = [1, 1, 1, 1] \<and> gameTimer initial_game = 0 \<and>
   inProgress initial_game \<and> \<not> boomStarted initial_game \<and> boomTimer initial_game = 0 \<and>
   componentDisappeared initial_game = replicate 29 False \<and>
   gameStatus initial_game = ''Keep Clicking!'' \<and>
   (bgRed initial_game, bgGreen initial_game, bgBlue initial_game) = (1, 1, 1)"
    by (simp add: initial_game_def inProgress_def length_createBuildingComponents)
  from 1 2 3 show ?thesis by blast
qed

subsection \<open>Evaluating runs\<close>

lemma fst_drawLoop_idle: "\<not> boomStarted g \<Longrightarrow> fst (drawLoop cs k g) = g"
proof (induction cs arbitrary: k)
  case Nil
  show ?case by simp
next
  case (Cons c cs)
  then show ?case
    by (simp only: fst_drawLoop_Cons drawComponent_fst if_False simp_thms)
qed

lemma mainLoopIteration_idle:
  "fst (mainLoopIteration inp lg) =
     (let s = updatePhase inp lg in
      if boomStarted (snd s) then (fst s, fst (drawLoop createBuildingComponents 0 (snd s)))
      else s)"
  by (simp add: mainLoopIteration_def split_beta Let_def fst_drawLoop_idle)

lemmas run_simps = mainLoopIteration_idle updatePhase_def processInput_def updateGameLogic_def
  updateBackgroundColor_def updateBoomAnimation_def avgOpacity_def decayPillars_def
  boostPillars_def anyPillarFailed_def upt_0_4 frame_def initial_game_def initial_latches_def
  OPACITY_FADE_RATE_def OPACITY_GAIN_RATE_def OPACITY_THRESHOLD_def GAME_DURATION_def
  BOOM_DURATION_def Let_def

theorem resetGame_restores_initial_witness:
  "lost (snd (mainLoop (initial_latches, initial_game) [frame False False 3])) \<and>
   pillarOpacity (snd (mainLoop (initial_latches, initial_game) [frame False False 3]))
     = [0.4, 0.4, 0.4, 0.4] \<and>
   resetGame (snd (mainLoop (initial_latches, initial_game) [frame False False 3])) = initial_game"
proof -
  let ?g = "snd (mainLoop (initial_latches, initial_game) [frame False False 3])"
  have st: "lost ?g \<and> pillarOpacity ?g = [0.4, 0.4, 0.4, 0.4]"
    by (simp add: run_simps lost_def)
  from resetGame_restores_initial [of "[frame False False 3]"]
  have "resetGame ?g = initial_game" by blast
  with st show ?thesis by blast
qed

subsection \<open>The outcome \<open>Lost\<close> is left by a reset only\<close>

lemma lost_processInput:
  "lost g \<Longrightarrow> \<not> r_down inp \<Longrightarrow> snd (processInput inp (l, g)) = g"
  by (simp add: processInput_def Let_def lost_def)

lemma lost_updateBackgroundColor: "lost g \<Longrightarrow> lost (updateBackgroundColor g)"
  by (simp add: updateBackgroundColor_def lost_def)

lemma lost_updateBoomAnimation: "lost (updateBoomAnimation dt g) = lost g"
  by (simp add: updateBoomAnimation_def Let_def lost_def)

lemma lost_drawLoop: "lost (fst (drawLoop cs k g)) = lost g"
  by (simp add: lost_def drawLoop_fields)

lemma lost_mainLoopIteration:
  assumes "lost g" and "\<not> r_down inp"
  shows "lost (snd (fst (mainLoopIteration inp (l, g))))"
proof -
  from assms(1) have "\<not> gameActive g" by (simp add: lost_def)
  then have "updateGameLogic (deltaTime inp) g = g"
    by (simp add: updateGameLogic_idle)
  with assms show ?thesis
    by (simp add: snd_fst_mainLoopIteration updatePhase_def Let_def split_beta lost_drawLoop
          lost_processInput lost_updateBackgroundColor lost_updateBoomAnimation)
qed

lemma lost_mainLoop:
  "lost (snd lg) \<Longrightarrow> \<forall>inp \<in> set inps. \<not> r_down inp \<Longrightarrow> lost (snd (mainLoop lg inps))"
proof (induction inps arbitrary: lg)
  case Nil
  then show ?case by simp
next
  case (Cons inp inps)
  obtain l g where lg: "lg = (l, g)" by (cases lg)
  from Cons.prems have "lost (snd (fst (mainLoopIteration inp lg)))"
    by (simp add: lg lost_mainLoopIteration)
  with Cons.prems(2) show ?case
    by (simp add: Cons.IH)
qed

text \<open>
  Claim C7.  \<open>updateBoomAnimation\<close> adds the frame time to the collapse clock; when the clock
  reaches the total duration of 2.5 seconds the collapse is switched off and the clock is
  back at 0.  It leaves a lost round lost, and a lost round stays lost over every run of
  frames in which the R key is not pressed.
\<close>

theorem updateBoomAnimation_deactivates:
  "BOOM_DURATION = 2.5 \<and>
   updateBoomAnimation dt g =
     (if boomTimer g + dt \<ge> BOOM_DURATION then g\<lparr>boomTimer := 0, boomStarted := False\<rparr>
      else g\<lparr>boomTimer := boomTimer g + dt\<rparr>) \<and>
   lost (updateBoomAnimation dt g) = lost g \<and>
   (lost g \<and> (\<forall>inp \<in> set inps. \<not> r_down inp) \<longrightarrow> lost (snd (mainLoop (l, g) inps)))"
  by (simp add: lost_mainLoop lost_updateBoomAnimation)
     (simp add: updateBoomAnimation_def Let_def BOOM_DURATION_def)

theorem updateBoomAnimation_deactivates_witness:
  "lost (updateGameLogic 2.4 initial_game) \<and>
   boomStarted (updateGameLogic 2.4 initial_game) \<and>
   boomTimer (updateGameLogic 2.4 initial_game) = 0 \<and>
   boomTimer (updateBoomAnimation 2.4 (updateGameLogic 2.4 initial_game)) = 2.4 \<and>
   boomStarted (updateBoomAnimation 2.4 (updateGameLogic 2.4 initial_game)) \<and>
   updateBoomAnimation 0.1 (updateBoomAnimation 2.4 (updateGameLogic 2.4 initial_game)) =
     (updateBoomAnimation 2.4 (updateGameLogic 2.4 initial_game))
       \<lparr>boomTimer := 0, boomStarted := False\<rparr> \<and>
   lost (updateBoomAnimation 0.1 (updateBoomAnimation 2.4 (updateGameLogic 2.4 initial_game))) \<and>
   lost (snd (mainLoop
     (initial_latches, updateBoomAnimation 2.4 (updateGameLogic 2.4 initial_game))
     [frame True False 1, frame False False 7, frame True False 4]))"
proof -
  define g where "g = updateBoomAnimation 2.4 (updateGameLogic 2.4 initial_game)"
  have g0: "lost (updateGameLogic 2.4 initial_game) \<and>
      boomStarted (updateGameLogic 2.4 initial_game) \<and>
      boomTimer (updateGameLogic 2.4 initial_game) = 0"
    by (simp add: updateGameLogic_def Let_def decayPillars_def anyPillarFailed_def upt_0_4
          initial_game_def OPACITY_FADE_RATE_def OPACITY_THRESHOLD_def lost_def)
  then have g1: "boomTimer g = 2.4 \<and> boomStarted g \<and> lost g"
    by (simp add: g_def updateBoomAnimation_def Let_def BOOM_DURATION_def lost_def)
  have nr: "\<forall>inp \<in> set [frame True False 1, frame False False 7, frame True False 4].
      \<not> r_down inp"
    by (simp add: frame_def)
  note inst = updateBoomAnimation_deactivates
    [of "0.1" g "[frame True False 1, frame False False 7, frame True False 4]" initial_latches]
  from inst have A: "updateBoomAnimation 0.1 g =
      (if boomTimer g + 0.1 \<ge> BOOM_DURATION then g\<lparr>boomTimer := 0, boomStarted := False\<rparr>
       else g\<lparr>boomTimer := boomTimer g + 0.1\<rparr>)"
    and B: "lost (updateBoomAnimation 0.1 g) = lost g"
    and C: "lost g \<and> (\<forall>inp \<in> set [frame True False 1, frame False False 7, frame True False 4].
              \<not> r_down inp) \<longrightarrow>
        lost (snd (mainLoop (initial_latches, g)
          [frame True False 1, frame False False 7, frame True False 4]))"
    by blast+
  from g1 have "boomTimer g + 0.1 \<ge> BOOM_DURATION"
    by (simp add: BOOM_DURATION_def)
  with A have A': "updateBoomAnimation 0.1 g = g\<lparr>boomTimer := 0, boomStarted := False\<rparr>"
    by simp
  from B g1 have B': "lost (updateBoomAnimation 0.1 g)" by blast
  from C g1 nr have C': "lost (snd (mainLoop (initial_latches, g)
          [frame True False 1, frame False False 7, frame True False 4]))" by blast
  from A' B' C'
  have "updateBoomAnimation 0.1 g = g\<lparr>boomTimer := 0, boomStarted := False\<rparr> \<and>
        lost (updateBoomAnimation 0.1 g) \<and>
        lost (snd (mainLoop (initial_latches, g)
          [frame True False 1, frame False False 7, frame True False 4]))"
    by blast
  with g0 g1 show ?thesis
    unfolding g_def by blast
qed

subsection \<open>Opacities stay in the unit interval\<close>

lemma mainLoop_snoc:
  "mainLoop lg (inps @ [inp]) = fst (mainLoopIteration inp (mainLoop lg inps))"
  by (induction inps arbitrary: lg) simp_all

lemma game_inv_reached:
  "\<forall>inp \<in> set inps. 0 \<le> deltaTime inp \<Longrightarrow>
   game_inv (snd (mainLoop (initial_latches, initial_game) inps))"
  by (rule game_inv_mainLoop) (simp_all add: game_inv_initial)

text \<open>
  Claim C2.  In every state the driver loop reaches from its initial state by frames whose time is
  not negative, whatever the keys, there are four pillar opacities and each lies between 0
  and 1; the same holds between the input handling and the decay of a further frame.  The
  decay turns each opacity \<open>p\<close> into \<open>max (p - 0.2 * dt) 0\<close>, the boost into \<open>min (p + 0.25) 1\<close>.
\<close>

theorem pillarOpacity_in_unit_interval:
  assumes "\<forall>inp \<in> set inps. 0 \<le> deltaTime inp"
  shows "let g = snd (mainLoop (initial_latches, initial_game) inps);
             g1 = snd (processInput inp (mainLoop (initial_latches, initial_game) inps)) in
         length (pillarOpacity g) = 4 \<and> (\<forall>p \<in> set (pillarOpacity g). 0 \<le> p \<and> p \<le> 1) \<and>
         length (pillarOpacity g1) = 4 \<and> (\<forall>p \<in> set (pillarOpacity g1). 0 \<le> p \<and> p \<le> 1) \<and>
         (length ps = 4 \<longrightarrow>
            decayPillars dt ps = map (\<lambda>p. max (p - 0.2 * dt) 0) ps \<and>
            boostPillars ps = map (\<lambda>p. min (p + 0.25) 1) ps)"
proof -
  let ?s = "mainLoop (initial_latches, initial_game) inps"
  from assms have inv: "game_inv (snd ?s)"
    by (rule game_inv_reached)
  then have "game_inv (snd (processInput inp (fst ?s, snd ?s)))"
    by (rule game_inv_processInput)
  then have inv1: "game_inv (snd (processInput inp ?s))"
    by simp
  have "length ps = 4 \<longrightarrow>
            decayPillars dt ps = map (\<lambda>p. max (p - 0.2 * dt) 0) ps \<and>
            boostPillars ps = map (\<lambda>p. min (p + 0.25) 1) ps"
    by (simp add: decayPillars_map boostPillars_map OPACITY_FADE_RATE_def OPACITY_GAIN_RATE_def)
  moreover from inv have "length (pillarOpacity (snd ?s)) = 4"
    and "\<forall>p \<in> set (pillarOpacity (snd ?s)). 0 \<le> p \<and> p \<le> 1"
    by (simp_all add: game_inv_def)
  moreover from inv1 have "length (pillarOpacity (snd (processInput inp ?s))) = 4"
    and "\<forall>p \<in> set (pillarOpacity (snd (processInput inp ?s))). 0 \<le> p \<and> p \<le> 1"
    by (simp_all add: game_inv_def)
  ultimately show ?thesis
    by (simp only: Let_def simp_thms)
qed

theorem pillarOpacity_in_unit_interval_witness:
  "0 \<le> deltaTime (frame False False 1) \<and> 0 \<le> deltaTime (frame True False 0.5) \<and>
   list_all (\<lambda>p. 0 \<le> p \<and> p \<le> 1)
     (pillarOpacity (snd (mainLoop (initial_latches, initial_game)
        [frame False False 1, frame True False 0.5]))) \<and>
   list_all (\<lambda>p. 0 \<le> p \<and> p \<le> 1)
     (pillarOpacity (snd (processInput (frame True True 0)
        (mainLoop (initial_latches, initial_game)
           [frame False False 1, frame True False 0.5])))) \<and>
   decayPillars 7 [1, 0.9, 0.2, 0] = [0, 0, 0, 0] \<and>
   boostPillars [1, 0.9, 0.2, 0] = [1, 1, 0.45, 0.25]"
proof -
  let ?inps = "[frame False False 1, frame True False 0.5]"
  have h: "\<forall>inp \<in> set ?inps. 0 \<le> deltaTime inp"
    by (simp add: frame_def)
  have l4: "length [1, 0.9, 0.2, 0::real] = 4" by simp
  note inst = pillarOpacity_in_unit_interval
    [OF h, of "frame True True 0" "[1, 0.9, 0.2, 0]" 7, unfolded Let_def]
  from inst have A: "list_all (\<lambda>p. 0 \<le> p \<and> p \<le> 1)
     (pillarOpacity (snd (mainLoop (initial_latches, initial_game) ?inps)))"
    and B: "list_all (\<lambda>p. 0 \<le> p \<and> p \<le> 1)
     (pillarOpacity (snd (processInput (frame True True 0)
        (mainLoop (initial_latches, initial_game) ?inps))))"
    unfolding list_all_iff by blast+
  from inst l4 have C: "decayPillars 7 [1, 0.9, 0.2, 0] = [0, 0, 0, 0]"
    and D: "boostPillars [1, 0.9, 0.2, 0] = [1, 1, 0.45, 0.25]"
    by simp_all
  have F: "0 \<le> deltaTime (frame False False 1) \<and> 0 \<le> deltaTime (frame True False 0.5)"
    by (simp add: frame_def)
  from A B C D F show ?thesis by blast
qed

subsection \<open>The background colour\<close>

lemma avgOpacity_le_1: "game_inv g \<Longrightarrow> avgOpacity g \<le> 1"
proof -
  assume inv: "game_inv g"
  then have "length (pillarOpacity g) = 4"
    by (simp add: game_inv_def)
  then obtain a b c d where ps: "pillarOpacity g = [a, b, c, d]"
    by (rule length4E)
  with inv have "a \<le> 1" "b \<le> 1" "c \<le> 1" "d \<le> 1"
    by (simp_all add: game_inv_def)
  then show ?thesis
    by (simp add: avgOpacity_def ps)
qed

lemma background_matches_updateBackgroundColor:
  assumes "game_inv g"
  shows "background_matches (updateBackgroundColor g)"
proof -
  from assms have "avgOpacity g \<le> 1" by (rule avgOpacity_le_1)
  then have "(avgOpacity g - OPACITY_THRESHOLD) / (1 - OPACITY_THRESHOLD) \<le> 1"
    by (simp add: OPACITY_THRESHOLD_def)
  then have r: "clamp ((avgOpacity g - OPACITY_THRESHOLD) / (1 - OPACITY_THRESHOLD)) 0 1 =
      max ((avgOpacity g - OPACITY_THRESHOLD) / (1 - OPACITY_THRESHOLD)) 0"
    by (simp add: clamp_def)
  from assms have "inProgress g \<or> won g \<or> lost g"
    by (simp add: game_inv_def)
  moreover have "\<And>r gr b. avgOpacity (g\<lparr>bgRed := r, bgGreen := gr, bgBlue := b\<rparr>) = avgOpacity g"
    by (simp add: avgOpacity_def)
  ultimately show ?thesis
    by (auto simp add: background_matches_def updateBackgroundColor_def backgroundColorSpec_def
          outcome_of_def Let_def r inProgress_def won_def lost_def)
qed

lemma background_matches_updateBoomAnimation:
  "background_matches (updateBoomAnimation dt g) = background_matches g"
  by (simp add: background_matches_def updateBoomAnimation_def Let_def outcome_of_def
        avgOpacity_def)

lemma background_matches_drawLoop:
  "background_matches (fst (drawLoop cs k g)) = background_matches g"
  by (simp add: background_matches_def outcome_of_def avgOpacity_def drawLoop_fields)

lemma background_matches_mainLoopIteration:
  assumes "0 \<le> deltaTime inp" and "game_inv (snd lg)"
  shows "background_matches (snd (fst (mainLoopIteration inp lg)))"
proof -
  let ?g2 = "updateGameLogic (deltaTime inp) (snd (processInput inp lg))"
  from assms(2) have "game_inv (snd (processInput inp (fst lg, snd lg)))"
    by (rule game_inv_processInput)
  then have "game_inv ?g2"
    using assms(1) by (simp add: game_inv_updateGameLogic)
  then have "background_matches (updateBackgroundColor ?g2)"
    by (rule background_matches_updateBackgroundColor)
  then show ?thesis
    by (simp add: snd_fst_mainLoopIteration updatePhase_def Let_def split_beta
          background_matches_drawLoop background_matches_updateBoomAnimation)
qed

lemma background_matches_reached:
  assumes "\<forall>inp \<in> set inps. 0 \<le> deltaTime inp"
  shows "background_matches (snd (mainLoop (initial_latches, initial_game) inps))"
proof (cases inps rule: rev_cases)
  case Nil
  then show ?thesis
    by (simp add: background_matches_def initial_game_def outcome_of_def avgOpacity_def
          backgroundColorSpec_def clamp_def OPACITY_THRESHOLD_def)
next
  case (snoc inps' inp)
  with assms have "game_inv (snd (mainLoop (initial_latches, initial_game) inps'))"
    by (simp add: game_inv_reached)
  moreover from snoc assms have "0 \<le> deltaTime inp" by simp
  ultimately show ?thesis
    by (simp add: snoc mainLoop_snoc background_matches_mainLoopIteration)
qed







subsection \<open>The boost latch\<close>

lemma processInput_space_idle:
  "space_down inp \<Longrightarrow> spacePressed l \<or> \<not> gameActive g \<or> boomStarted g \<Longrightarrow> \<not> r_down inp \<Longrightarrow>
   processInput inp (l, g) = (l\<lparr>rPressed := False\<rparr>, g)"
  by (auto simp add: processInput_def Let_def)

lemma processInput_space_boost:
  "space_down inp \<Longrightarrow> \<not> spacePressed l \<Longrightarrow> gameActive g \<Longrightarrow> \<not> boomStarted g \<Longrightarrow> \<not> r_down inp \<Longrightarrow>
   processInput inp (l, g) =
     (l\<lparr>spacePressed := True, rPressed := False\<rparr>,
      g\<lparr>pillarOpacity := boostPillars (pillarOpacity g)\<rparr>)"
  by (simp add: processInput_def Let_def)

lemma processInput_latched:
  "spacePressed l \<Longrightarrow> space_down inp \<Longrightarrow>
   spacePressed (fst (processInput inp (l, g))) \<and>
   (snd (processInput inp (l, g)) = g \<or> snd (processInput inp (l, g)) = resetGame g)"
  by (simp add: processInput_def Let_def)

text \<open>
  Claim C4.  The frames \<open>held_boost_frames\<close> followed by one more frame with SPACE down.  The round
  is lost in the first frame; SPACE goes down in the second frame, where the boost is
  skipped because the round is over and the latch \<open>spacePressed\<close> is therefore not set; R resets the round in the
  third frame, which ends with opacities 0.9; in the fourth frame SPACE is down for the
  third frame in a row and the boost raises the opacities to 1.  The boost fires on a
  frame that is not the rising edge of the trigger.
\<close>

theorem boost_fires_while_space_is_held:
  "lost (snd (mainLoop (initial_latches, initial_game) (take 1 held_boost_frames))) \<and>
   map space_down held_boost_frames = [False, True, True] \<and>
   \<not> spacePressed (fst (mainLoop (initial_latches, initial_game) held_boost_frames)) \<and>
   pillarOpacity (snd (mainLoop (initial_latches, initial_game) held_boost_frames))
     = [0.9, 0.9, 0.9, 0.9] \<and>
   pillarOpacity (snd (processInput (frame True False 0.1)
      (mainLoop (initial_latches, initial_game) held_boost_frames))) = [1, 1, 1, 1]"
  by (simp add: held_boost_frames_def run_simps lost_def resetGame_def fold_update_all)

subsection \<open>The flash\<close>

lemma flashIntensity_range: "0 \<le> flashIntensity t \<and> flashIntensity t \<le> 1"
proof -
  have "- 1 \<le> sin (t * 6.28 * 5.0)" and "sin (t * 6.28 * 5.0) \<le> 1"
    by simp_all
  then show ?thesis
    unfolding flashIntensity_def by linarith
qed

lemma clearColor_flash:
  "boomStarted g \<Longrightarrow>
   clearColor g = blend (0.5, 0.2, 0.2) (1, 0.5, 0.5) (flashIntensity (boomTimer g))"
  by (simp add: clearColor_def)

lemma fo_clear_mainLoopIteration:
  "fo_clear (snd (mainLoopIteration inp lg)) =
     clearColor (snd (fst (mainLoopIteration inp lg)))"
  by (simp add: mainLoopIteration_def split_beta Let_def clearColor_def drawLoop_fields)

lemma flashIntensity_small: "flashIntensity 0.01 < 1"
proof -
  have "sin (0.314::real) \<le> 0.314"
    by (rule sin_x_le_x) simp
  then show ?thesis
    by (simp add: flashIntensity_def)
qed

lemma flash_frames_state:
  "boomStarted (snd (fst (mainLoopIteration (frame False False 0.01)
      (mainLoop (initial_latches, initial_game) [frame False False 2.249])))) \<and>
   boomTimer (snd (fst (mainLoopIteration (frame False False 0.01)
      (mainLoop (initial_latches, initial_game) [frame False False 2.249])))) = 0.01"
  by (simp add: snd_fst_mainLoopIteration drawLoop_fields) (simp add: run_simps)

text \<open>
  Claim C9.  (as amended)  In every frame of a run with non-negative frame times, the colour of
  the frame's last clear is the flash exactly when the collapse is active at render time,
  and a collapse is active only in a lost round.  The flash blends, at the intensity
  \<open>f = 0.5 * sin (31.4 * collapse clock) + 0.5\<close> in the unit interval, between the darker red
  \<open>(0.5, 0.2, 0.2)\<close> and the brighter \<open>(1, 0.5, 0.5)\<close>; it does not depend on the removed
  flags.  When no collapse is active the clear colour is the background colour of the
  outcome, \<open>(1, 0.2, 0.2)\<close> for a lost round.
\<close>

theorem flash_overrides_background_during_collapse:
  assumes "\<forall>inp \<in> set (inps @ [inp]). 0 \<le> deltaTime inp"
  shows "let (s, out) = mainLoopIteration inp (mainLoop (initial_latches, initial_game) inps);
             f = flashIntensity (boomTimer (snd s)) in
         0 \<le> f \<and> f \<le> 1 \<and> f = sin (boomTimer (snd s) * 31.4) * 0.5 + 0.5 \<and>
         (boomStarted (snd s) \<longrightarrow> lost (snd s)) \<and>
         fo_clear out =
           (if boomStarted (snd s) then blend (0.5, 0.2, 0.2) (1, 0.5, 0.5) f
            else backgroundColorSpec (outcome_of (snd s)) (avgOpacity (snd s)))"
proof -
  let ?r = "mainLoopIteration inp (mainLoop (initial_latches, initial_game) inps)"
  let ?g = "snd (fst ?r)"
  have run: "fst ?r = mainLoop (initial_latches, initial_game) (inps @ [inp])"
    by (simp add: mainLoop_snoc)
  from assms have inv: "game_inv ?g"
    unfolding run by (rule game_inv_reached)
  from assms have bg: "background_matches ?g"
    unfolding run by (rule background_matches_reached)
  have 1: "boomStarted ?g \<longrightarrow> lost ?g"
    using inv by (simp add: game_inv_def)
  have 2: "fo_clear (snd ?r) =
           (if boomStarted ?g then blend (0.5, 0.2, 0.2) (1, 0.5, 0.5) (flashIntensity (boomTimer ?g))
            else backgroundColorSpec (outcome_of ?g) (avgOpacity ?g))"
    using bg by (simp add: fo_clear_mainLoopIteration clearColor_flash)
      (simp add: clearColor_def background_matches_def)
  have "boomTimer ?g * 6.28 * 5.0 = boomTimer ?g * 31.4"
    by simp
  then have 3: "flashIntensity (boomTimer ?g) = sin (boomTimer ?g * 31.4) * 0.5 + 0.5"
    unfolding flashIntensity_def by (rule arg_cong)
  from 1 2 3 flashIntensity_range [of "boomTimer ?g"] show ?thesis
    by (simp add: split_beta Let_def)
qed

theorem flash_overrides_background_during_collapse_witness:
  "0 \<le> deltaTime (frame False False 2.249) \<and> 0 \<le> deltaTime (frame False False 0.01) \<and>
   boomStarted (snd (fst (mainLoopIteration (frame False False 0.01)
      (mainLoop (initial_latches, initial_game) [frame False False 2.249])))) \<and>
   lost (snd (fst (mainLoopIteration (frame False False 0.01)
      (mainLoop (initial_latches, initial_game) [frame False False 2.249])))) \<and>
   fo_clear (snd (mainLoopIteration (frame False False 0.01)
      (mainLoop (initial_latches, initial_game) [frame False False 2.249]))) =
     blend (0.5, 0.2, 0.2) (1, 0.5, 0.5) (flashIntensity 0.01)"
proof -
  let ?r = "mainLoopIteration (frame False False 0.01)
      (mainLoop (initial_latches, initial_game) [frame False False 2.249])"
  have h: "\<forall>inp \<in> set ([frame False False 2.249] @ [frame False False 0.01]). 0 \<le> deltaTime inp"
    by (simp add: frame_def)
  from flash_frames_state have st1: "boomStarted (snd (fst ?r))"
    and st2: "boomTimer (snd (fst ?r)) = 0.01"
    by blast+
  note inst = flash_overrides_background_during_collapse [OF h, unfolded split_beta Let_def]
  from inst st1 have l: "lost (snd (fst ?r))"
    by blast
  from inst have "fo_clear (snd ?r) =
      (if boomStarted (snd (fst ?r))
       then blend (0.5, 0.2, 0.2) (1, 0.5, 0.5) (flashIntensity (boomTimer (snd (fst ?r))))
       else backgroundColorSpec (outcome_of (snd (fst ?r))) (avgOpacity (snd (fst ?r))))"
    by blast
  then have c: "fo_clear (snd ?r) = blend (0.5, 0.2, 0.2) (1, 0.5, 0.5) (flashIntensity 0.01)"
    by (simp only: st1 st2 if_True)
  have "0 \<le> deltaTime (frame False False 2.249) \<and> 0 \<le> deltaTime (frame False False 0.01)"
    by (simp add: frame_def)
  with st1 l c show ?thesis
    by blast
qed

text \<open>The clear colour of the second frame of \<open>flash_frames\<close>, 0.01 seconds into the collapse,
  is no blend of the lost colour \<open>(1, 0.2, 0.2)\<close> with a colour at least as bright: its red
  channel is below 1.\<close>

theorem flash_is_not_a_blend_from_lost_color:
  "\<not> (\<exists>brighter_r brighter_g brighter_b.
        1 \<le> brighter_r \<and> 0.2 \<le> brighter_g \<and> 0.2 \<le> brighter_b \<and>
        fo_clear (snd (mainLoopIteration (last flash_frames)
            (mainLoop (initial_latches, initial_game) (butlast flash_frames)))) =
          blend (1, 0.2, 0.2) (brighter_r, brighter_g, brighter_b) (flashIntensity 0.01))"
proof
  let ?r = "mainLoopIteration (frame False False 0.01)
      (mainLoop (initial_latches, initial_game) [frame False False 2.249])"
  assume "\<exists>brighter_r brighter_g brighter_b.
        1 \<le> brighter_r \<and> 0.2 \<le> brighter_g \<and> 0.2 \<le> brighter_b \<and>
        fo_clear (snd (mainLoopIteration (last flash_frames)
            (mainLoop (initial_latches, initial_game) (butlast flash_frames)))) =
          blend (1, 0.2, 0.2) (brighter_r, brighter_g, brighter_b) (flashIntensity 0.01)"
  then obtain br bg bb where b: "1 \<le> br"
    and eq: "fo_clear (snd ?r) = blend (1, 0.2, 0.2) (br, bg, bb) (flashIntensity 0.01)"
    by (auto simp add: flash_frames_def)
  from flash_frames_state have st1: "boomStarted (snd (fst ?r))"
    and st2: "boomTimer (snd (fst ?r)) = 0.01"
    by blast+
  have "fo_clear (snd ?r) = clearColor (snd (fst ?r))"
    by (rule fo_clear_mainLoopIteration)
  also have "\<dots> = blend (0.5, 0.2, 0.2) (1, 0.5, 0.5) (flashIntensity (boomTimer (snd (fst ?r))))"
    using st1 by (rule clearColor_flash)
  finally have "fo_clear (snd ?r) = blend (0.5, 0.2, 0.2) (1, 0.5, 0.5) (flashIntensity 0.01)"
    unfolding st2 .
  with eq have "0.5 + flashIntensity 0.01 * 0.5 = 1 + flashIntensity 0.01 * (br - 1)"
    by simp
  moreover have "0 \<le> flashIntensity 0.01 * (br - 1)"
    using b flashIntensity_range [of "0.01"] by simp
  ultimately have "1 \<le> flashIntensity 0.01"
    by linarith
  with flashIntensity_small show False
    by simp
qed

subsection \<open>Pieces in the collapse\<close>

lemma drawComponent_collapsing:
  assumes "boomStarted g" and "0 < boomTimer g - disappearTime piece"
    and "boomTimer g - disappearTime piece < 0.5"
  shows "drawComponent g i piece =
     (let p = (boomTimer g - disappearTime piece) / 0.5 in
      (g, Some \<lparr>dc_index = i,
         dc_model = [Translate (comp_x piece) (comp_y piece),
                     Translate (sin (boomTimer g * 20) * ((1 - p) * 0.1))
                               (cos (boomTimer g * 25) * ((1 - p) * 0.1)),
                     Rotate (p * 3.14159 * 2), Scale (1 - p * 0.8) (1 - p * 0.8),
                     Scale (comp_width piece) (comp_height piece)],
         dc_color = finalColor g i piece\<rparr>))"
  using assms by (simp add: drawComponent_def disappearProgressOf_def Let_def)

lemma drawComponent_removed:
  assumes "boomStarted g" and "0.5 \<le> boomTimer g - disappearTime piece"
  shows "drawComponent g i piece =
     (g\<lparr>componentDisappeared := (componentDisappeared g)[i := True]\<rparr>, None)"
  using assms by (simp add: drawComponent_def disappearProgressOf_def Let_def)

lemma drawComponent_flagged:
  assumes "componentDisappeared g ! i"
    and "boomStarted g \<longrightarrow> 0.5 \<le> boomTimer g - disappearTime piece"
  shows "snd (drawComponent g i piece) = None"
  using assms by (simp add: drawComponent_def disappearProgressOf_def Let_def)

lemma drawComponent_index:
  "snd (drawComponent g i piece) = Some dc \<Longrightarrow> dc_index dc = i"
  by (auto simp add: drawComponent_def Let_def split: if_splits)

lemma snd_drawLoop_Cons:
  "snd (drawLoop (c # cs) k g) =
     (case snd (drawComponent g k c) of
        None \<Rightarrow> snd (drawLoop cs (Suc k) (fst (drawComponent g k c)))
      | Some d \<Rightarrow> d # snd (drawLoop cs (Suc k) (fst (drawComponent g k c))))"
  by (simp add: split_beta Let_def)

lemma drawLoop_index_ge:
  "dc \<in> set (snd (drawLoop cs k g)) \<Longrightarrow> k \<le> dc_index dc"
proof (induction cs arbitrary: k g)
  case Nil
  then show ?case by simp
next
  case (Cons c cs)
  let ?g1 = "fst (drawComponent g k c)"
  from Cons.prems have "dc \<in> set (snd (drawLoop cs (Suc k) ?g1)) \<or>
      snd (drawComponent g k c) = Some dc"
    by (auto simp add: snd_drawLoop_Cons simp del: drawLoop.simps split: option.splits)
  then show ?case
  proof
    assume "dc \<in> set (snd (drawLoop cs (Suc k) ?g1))"
    then have "Suc k \<le> dc_index dc" by (rule Cons.IH)
    then show ?thesis by simp
  next
    assume "snd (drawComponent g k c) = Some dc"
    then show ?thesis by (simp add: drawComponent_index)
  qed
qed

text \<open>A piece that is flagged, and past its window if the collapse runs, is not drawn.\<close>

lemma drawLoop_not_drawn:
  assumes "cs = drop k createBuildingComponents"
    and "componentDisappeared g ! i"
    and "boomStarted g \<longrightarrow> 0.5 \<le> boomTimer g - disappearTime (createBuildingComponents ! i)"
  shows "\<forall>dc \<in> set (snd (drawLoop cs k g)). dc_index dc \<noteq> i"
  using assms
proof (induction cs arbitrary: k g)
  case Nil
  then show ?case by simp
next
  case (Cons c cs)
  let ?g1 = "fst (drawComponent g k c)"
  from Cons.prems(1) have c: "c = createBuildingComponents ! k"
    and cs: "cs = drop (Suc k) createBuildingComponents"
    using drop_eq_ConsD [of k createBuildingComponents c cs] by simp_all
  show ?case
  proof (cases "k = i")
    case True
    with Cons.prems(2,3) c have "snd (drawComponent g k c) = None"
      by (simp add: drawComponent_flagged)
    moreover have "\<forall>dc \<in> set (snd (drawLoop cs (Suc k) ?g1)). dc_index dc \<noteq> i"
      using drawLoop_index_ge [of _ cs "Suc k" ?g1] True by fastforce
    ultimately show ?thesis
      by (simp only: snd_drawLoop_Cons option.case)
  next
    case False
    have g1: "?g1 = g \<or> ?g1 = g\<lparr>componentDisappeared := (componentDisappeared g)[k := True]\<rparr>"
      by (simp add: drawComponent_fst)
    with Cons.prems(2) False have f1: "componentDisappeared ?g1 ! i"
      by auto
    from g1 Cons.prems(3) have b1: "boomStarted ?g1 \<longrightarrow>
        0.5 \<le> boomTimer ?g1 - disappearTime (createBuildingComponents ! i)"
      by auto
    from cs f1 b1 have "\<forall>dc \<in> set (snd (drawLoop cs (Suc k) ?g1)). dc_index dc \<noteq> i"
      by (rule Cons.IH)
    moreover have "\<And>d. snd (drawComponent g k c) = Some d \<Longrightarrow> dc_index d \<noteq> i"
      using False by (simp add: drawComponent_index)
    ultimately show ?thesis
      by (auto simp add: snd_drawLoop_Cons simp del: drawLoop.simps split: option.splits)
  qed
qed

text \<open>A piece past its window while the collapse runs is flagged by the draw loop.\<close>

lemma drawLoop_sets_flag:
  assumes "cs = drop k createBuildingComponents"
    and "k \<le> i" and "i < length createBuildingComponents"
    and "length (componentDisappeared g) = length createBuildingComponents"
    and "boomStarted g"
    and "0.5 \<le> boomTimer g - disappearTime (createBuildingComponents ! i)"
  shows "componentDisappeared (fst (drawLoop cs k g)) ! i"
  using assms
proof (induction cs arbitrary: k g)
  case Nil
  then show ?case by simp
next
  case (Cons c cs)
  let ?g1 = "fst (drawComponent g k c)"
  from Cons.prems(1) have c: "c = createBuildingComponents ! k"
    and cs: "cs = drop (Suc k) createBuildingComponents"
    using drop_eq_ConsD [of k createBuildingComponents c cs] by simp_all
  have g1: "?g1 = g \<or> ?g1 = g\<lparr>componentDisappeared := (componentDisappeared g)[k := True]\<rparr>"
    by (simp add: drawComponent_fst)
  show ?case
  proof (cases "k = i")
    case True
    with Cons.prems c have "?g1 = g\<lparr>componentDisappeared := (componentDisappeared g)[i := True]\<rparr>"
      by (simp add: drawComponent_fst)
    with Cons.prems(3,4) have "componentDisappeared ?g1 ! i"
      and "i < length (componentDisappeared ?g1)"
      by simp_all
    with drawLoop_frame [of cs "Suc k" ?g1]
    have "componentDisappeared (fst (drawLoop cs (Suc k) ?g1)) ! i"
      by auto
    then show ?thesis
      by (simp only: fst_drawLoop_Cons)
  next
    case False
    with Cons.prems(2) have "Suc k \<le> i" by simp
    moreover from g1 Cons.prems(4)
    have "length (componentDisappeared ?g1) = length createBuildingComponents"
      by auto
    moreover from g1 Cons.prems(5,6) have "boomStarted ?g1" 
      and "0.5 \<le> boomTimer ?g1 - disappearTime (createBuildingComponents ! i)"
      by auto
    ultimately have "componentDisappeared (fst (drawLoop cs (Suc k) ?g1)) ! i"
      using cs Cons.prems(3) by (intro Cons.IH)
    then show ?thesis
      by (simp only: fst_drawLoop_Cons)
  qed
qed

lemma drawLoop_not_drawn_past:
  assumes "cs = drop k createBuildingComponents"
    and "boomStarted g"
    and "0.5 \<le> boomTimer g - disappearTime (createBuildingComponents ! i)"
  shows "\<forall>dc \<in> set (snd (drawLoop cs k g)). dc_index dc \<noteq> i"
  using assms
proof (induction cs arbitrary: k g)
  case Nil
  then show ?case by simp
next
  case (Cons c cs)
  let ?g1 = "fst (drawComponent g k c)"
  from Cons.prems(1) have c: "c = createBuildingComponents ! k"
    and cs: "cs = drop (Suc k) createBuildingComponents"
    using drop_eq_ConsD [of k createBuildingComponents c cs] by simp_all
  have g1: "?g1 = g \<or> ?g1 = g\<lparr>componentDisappeared := (componentDisappeared g)[k := True]\<rparr>"
    by (simp add: drawComponent_fst)
  with Cons.prems(2,3) have "boomStarted ?g1"
    and "0.5 \<le> boomTimer ?g1 - disappearTime (createBuildingComponents ! i)"
    by auto
  with cs have rest: "\<forall>dc \<in> set (snd (drawLoop cs (Suc k) ?g1)). dc_index dc \<noteq> i"
    by (rule Cons.IH)
  show ?case
  proof (cases "k = i")
    case True
    with Cons.prems(2,3) c have "snd (drawComponent g k c) = None"
      by (simp add: drawComponent_removed)
    with rest show ?thesis
      by (simp only: snd_drawLoop_Cons option.case)
  next
    case False
    then have "\<And>d. snd (drawComponent g k c) = Some d \<Longrightarrow> dc_index d \<noteq> i"
      by (simp add: drawComponent_index)
    with rest show ?thesis
      by (auto simp add: snd_drawLoop_Cons simp del: drawLoop.simps split: option.splits)
  qed
qed

lemma fo_draws_mainLoopIteration:
  "fo_draws (snd (mainLoopIteration inp lg)) =
     snd (drawLoop createBuildingComponents 0 (snd (updatePhase inp lg)))"
  by (simp add: mainLoopIteration_def split_beta Let_def)

lemma componentDisappeared_updateGameLogic:
  "componentDisappeared (updateGameLogic dt g) = componentDisappeared g"
  by (simp add: updateGameLogic_def Let_def)

lemma componentDisappeared_updatePhase:
  "\<not> r_down inp \<Longrightarrow>
   componentDisappeared (snd (updatePhase inp (l, g))) = componentDisappeared g"
  by (simp add: updatePhase_def processInput_def Let_def split_beta
        componentDisappeared_updateGameLogic updateBackgroundColor_def updateBoomAnimation_def)

lemma flag_kept_mainLoopIteration:
  assumes "componentDisappeared g ! i" and "i < length (componentDisappeared g)"
    and "\<not> r_down inp"
  shows "componentDisappeared (snd (fst (mainLoopIteration inp (l, g)))) ! i"
proof -
  let ?g1 = "snd (updatePhase inp (l, g))"
  from assms have "componentDisappeared ?g1 ! i" and "i < length (componentDisappeared ?g1)"
    by (simp_all add: componentDisappeared_updatePhase)
  with drawLoop_frame [of createBuildingComponents 0 ?g1] show ?thesis
    by (auto simp add: snd_fst_mainLoopIteration)
qed

lemma flag_kept_mainLoop:
  assumes "componentDisappeared (snd lg) ! i" and "arrays_ok (snd lg)"
    and "i < length createBuildingComponents" and "\<forall>inp \<in> set inps. \<not> r_down inp"
  shows "componentDisappeared (snd (mainLoop lg inps)) ! i"
  using assms
proof (induction inps arbitrary: lg)
  case Nil
  then show ?case by simp
next
  case (Cons inp inps)
  obtain l g where lg: "lg = (l, g)" by (cases lg)
  let ?s = "fst (mainLoopIteration inp lg)"
  from Cons.prems have "componentDisappeared (snd ?s) ! i"
    by (simp add: lg flag_kept_mainLoopIteration arrays_ok_def)
  moreover from Cons.prems(2) have "arrays_ok (snd ?s)"
    by (simp add: lg arrays_ok_mainLoopIteration)
  ultimately have "componentDisappeared (snd (mainLoop ?s inps)) ! i"
    using Cons.prems(3,4) by (intro Cons.IH) simp_all
  then show ?case by simp
qed

lemma mainLoop_append: "mainLoop lg (xs @ ys) = mainLoop (mainLoop lg xs) ys"
  by (induction xs arbitrary: lg) simp_all

text \<open>In a frame at whose render phase the collapse runs and a piece is past its window,
  the piece is flagged and not drawn.\<close>

lemma piece_removed_in_frame:
  assumes "arrays_ok (snd lg)" and "i < length createBuildingComponents"
    and "boomStarted (snd (fst (mainLoopIteration inp lg)))"
    and "0.5 \<le> boomTimer (snd (fst (mainLoopIteration inp lg)))
            - disappearTime (createBuildingComponents ! i)"
  shows "componentDisappeared (snd (fst (mainLoopIteration inp lg))) ! i \<and>
         i \<notin> dc_index ` set (fo_draws (snd (mainLoopIteration inp lg)))"
proof -
  let ?g1 = "snd (updatePhase inp lg)"
  from assms(1) have "arrays_ok (snd (fst (mainLoopIteration inp (fst lg, snd lg))))"
    by (rule arrays_ok_mainLoopIteration)
  then have len: "length (componentDisappeared ?g1) = length createBuildingComponents"
    by (simp add: snd_fst_mainLoopIteration arrays_ok_def drawLoop_fields)
  from assms(3,4) have b: "boomStarted ?g1"
    and t: "0.5 \<le> boomTimer ?g1 - disappearTime (createBuildingComponents ! i)"
    by (simp_all add: snd_fst_mainLoopIteration drawLoop_fields)
  have "componentDisappeared (fst (drawLoop createBuildingComponents 0 ?g1)) ! i"
    using assms(2) len b t by (intro drawLoop_sets_flag) simp_all
  moreover have "\<forall>dc \<in> set (snd (drawLoop createBuildingComponents 0 ?g1)). dc_index dc \<noteq> i"
    using b t by (intro drawLoop_not_drawn_past) simp_all
  ultimately show ?thesis
    by (auto simp add: snd_fst_mainLoopIteration fo_draws_mainLoopIteration)
qed

text \<open>A flagged piece is not drawn in a later frame, as long as R is not pressed.\<close>

lemma removed_piece_not_drawn:
  assumes "game_inv (snd lg)" and "0 \<le> deltaTime inp" and "\<not> r_down inp"
    and "i < length createBuildingComponents" and "componentDisappeared (snd lg) ! i"
  shows "componentDisappeared (snd (fst (mainLoopIteration inp lg))) ! i \<and>
         i \<notin> dc_index ` set (fo_draws (snd (mainLoopIteration inp lg)))"
proof -
  let ?g1 = "snd (updatePhase inp lg)"
  from assms(1) have len: "length (componentDisappeared (snd lg)) = length createBuildingComponents"
    by (simp add: game_inv_def)
  from assms(1,2) have inv1: "game_inv (snd (updatePhase inp (fst lg, snd lg)))"
    by (rule game_inv_updatePhase [rotated])
  from assms(3) have cd: "componentDisappeared ?g1 = componentDisappeared (snd lg)"
    using componentDisappeared_updatePhase [of inp "fst lg" "snd lg"] by simp
  with assms(5) have f1: "componentDisappeared ?g1 ! i" by simp
  from inv1 f1 cd len assms(4)
  have t: "boomStarted ?g1 \<longrightarrow> 0.5 \<le> boomTimer ?g1 - disappearTime (createBuildingComponents ! i)"
    by (simp add: game_inv_def)
  have "\<forall>dc \<in> set (snd (drawLoop createBuildingComponents 0 ?g1)). dc_index dc \<noteq> i"
    using f1 t by (intro drawLoop_not_drawn) simp_all
  moreover have "componentDisappeared (snd (fst (mainLoopIteration inp (fst lg, snd lg)))) ! i"
    using assms(3,4,5) len by (intro flag_kept_mainLoopIteration) simp_all
  ultimately show ?thesis
    by (auto simp add: fo_draws_mainLoopIteration)
qed

text \<open>The draw call of a piece depends on the removed flags through the piece's own flag
  only, so the draw list of a frame is made of the calls that \<open>drawComponent\<close> yields in
  the state at the start of the loop, piece by piece in index order.\<close>

lemma snd_drawComponent_other_flag:
  "i \<noteq> j \<Longrightarrow>
   snd (drawComponent (g\<lparr>componentDisappeared := (componentDisappeared g)[j := True]\<rparr>) i c)
     = snd (drawComponent g i c)"
  by (auto simp add: drawComponent_def finalColor_def Let_def split: prod.splits)

lemma map_filter_cong_set:
  "(\<And>x. x \<in> set xs \<Longrightarrow> f x = h x) \<Longrightarrow> List.map_filter f xs = List.map_filter h xs"
  by (induction xs) (simp_all add: map_filter_simps split: option.splits)

lemma snd_drawLoop_eq:
  "cs = drop j createBuildingComponents \<Longrightarrow>
   snd (drawLoop cs j g) =
     List.map_filter (\<lambda>i. snd (drawComponent g i (createBuildingComponents ! i)))
       [j..<length createBuildingComponents]"
proof (induction cs arbitrary: j g)
  case Nil
  then have "length createBuildingComponents \<le> j" by simp
  then show ?case by (simp add: map_filter_simps)
next
  case (Cons c cs)
  let ?n = "length createBuildingComponents"
  let ?g1 = "fst (drawComponent g j c)"
  let ?f = "\<lambda>g i. snd (drawComponent g i (createBuildingComponents ! i))"
  from Cons.prems have j: "j < ?n" and c: "c = createBuildingComponents ! j"
    and cs: "cs = drop (Suc j) createBuildingComponents"
    using drop_eq_ConsD [of j createBuildingComponents c cs] by simp_all
  have g1: "?g1 = g \<or> ?g1 = g\<lparr>componentDisappeared := (componentDisappeared g)[j := True]\<rparr>"
    by (simp add: drawComponent_fst)
  have same: "?f ?g1 i = ?f g i" if "i \<in> set [Suc j..<?n]" for i
  proof -
    from that have "i \<noteq> j" by simp
    with g1 show ?thesis
      by (auto simp add: snd_drawComponent_other_flag)
  qed
  have "snd (drawLoop cs (Suc j) ?g1) = List.map_filter (?f ?g1) [Suc j..<?n]"
    using cs by (rule Cons.IH)
  also have "\<dots> = List.map_filter (?f g) [Suc j..<?n]"
    using same by (rule map_filter_cong_set)
  finally have rest: "snd (drawLoop cs (Suc j) ?g1) = List.map_filter (?f g) [Suc j..<?n]" .
  from j have "[j..<?n] = j # [Suc j..<?n]"
    by (rule upt_conv_Cons)
  then show ?case
    using rest unfolding c
    by (simp add: snd_drawLoop_Cons map_filter_simps del: drawLoop.simps split: option.splits)
qed

lemma fo_draws_characterised:
  "fo_draws (snd (mainLoopIteration inp lg)) =
     List.map_filter
       (\<lambda>i. snd (drawComponent (snd (updatePhase inp lg)) i (createBuildingComponents ! i)))
       [0..<length createBuildingComponents]"
  by (simp only: fo_draws_mainLoopIteration) (rule snd_drawLoop_eq, simp)

lemma finalColor_after_frame:
  "finalColor (snd (fst (mainLoopIteration inp lg))) i c = finalColor (snd (updatePhase inp lg)) i c"
  by (auto simp add: finalColor_def snd_fst_mainLoopIteration drawLoop_fields split: prod.splits)

lemma filter_index_map_filter:
  assumes "\<And>i d. f i = Some d \<Longrightarrow> dc_index d = i"
  shows "filter (\<lambda>d. dc_index d = k) (List.map_filter f xs)
           = List.map_filter f (filter (\<lambda>i. i = k) xs)"
  using assms by (induction xs) (auto simp add: map_filter_simps split: option.splits)

lemma filter_eq_upt: "k < n \<Longrightarrow> filter (\<lambda>i. i = k) [0..<n] = [k]"
  by (induction n) (auto simp add: less_Suc_eq filter_empty_conv)

lemma draws_of_piece:
  assumes "k < length createBuildingComponents"
  shows "filter (\<lambda>d. dc_index d = k) (fo_draws (snd (mainLoopIteration inp lg))) =
     (case snd (drawComponent (snd (updatePhase inp lg)) k (createBuildingComponents ! k)) of
        None \<Rightarrow> [] | Some d \<Rightarrow> [d])"
proof -
  let ?f = "\<lambda>i. snd (drawComponent (snd (updatePhase inp lg)) i (createBuildingComponents ! i))"
  have "filter (\<lambda>d. dc_index d = k) (List.map_filter ?f [0..<length createBuildingComponents])
      = List.map_filter ?f (filter (\<lambda>i. i = k) [0..<length createBuildingComponents])"
    by (rule filter_index_map_filter) (rule drawComponent_index)
  also from assms have "\<dots> = List.map_filter ?f [k]"
    by (simp only: filter_eq_upt)
  finally show ?thesis
    by (simp add: fo_draws_characterised map_filter_simps split: option.splits)
qed

text \<open>In a frame at whose render phase the collapse runs and a piece is inside its window,
  the piece is drawn, once, with the transform of its progress.\<close>

lemma piece_drawn_in_frame:
  assumes "k < length createBuildingComponents"
    and "boomStarted (snd (fst (mainLoopIteration inp lg)))"
    and "0 < boomTimer (snd (fst (mainLoopIteration inp lg)))
            - disappearTime (createBuildingComponents ! k)"
    and "boomTimer (snd (fst (mainLoopIteration inp lg)))
            - disappearTime (createBuildingComponents ! k) < 0.5"
  shows "(let g = snd (fst (mainLoopIteration inp lg)); piece = createBuildingComponents ! k;
              p = (boomTimer g - disappearTime piece) / 0.5 in
          filter (\<lambda>d. dc_index d = k) (fo_draws (snd (mainLoopIteration inp lg))) =
          [\<lparr>dc_index = k,
            dc_model = [Translate (comp_x piece) (comp_y piece),
                        Translate (sin (boomTimer g * 20) * ((1 - p) * 0.1))
                                  (cos (boomTimer g * 25) * ((1 - p) * 0.1)),
                        Rotate (p * 3.14159 * 2), Scale (1 - p * 0.8) (1 - p * 0.8),
                        Scale (comp_width piece) (comp_height piece)],
            dc_color = finalColor g k piece\<rparr>])"
proof -
  let ?g1 = "snd (updatePhase inp lg)"
  let ?g = "snd (fst (mainLoopIteration inp lg))"
  let ?piece = "createBuildingComponents ! k"
  have b: "boomStarted ?g = boomStarted ?g1" and t: "boomTimer ?g = boomTimer ?g1"
    by (simp_all add: snd_fst_mainLoopIteration drawLoop_fields)
  from assms(2-4) have "drawComponent ?g1 k ?piece =
     (let p = (boomTimer ?g1 - disappearTime ?piece) / 0.5 in
      (?g1, Some \<lparr>dc_index = k,
         dc_model = [Translate (comp_x ?piece) (comp_y ?piece),
                     Translate (sin (boomTimer ?g1 * 20) * ((1 - p) * 0.1))
                               (cos (boomTimer ?g1 * 25) * ((1 - p) * 0.1)),
                     Rotate (p * 3.14159 * 2), Scale (1 - p * 0.8) (1 - p * 0.8),
                     Scale (comp_width ?piece) (comp_height ?piece)],
         dc_color = finalColor ?g1 k ?piece\<rparr>))"
    unfolding b t by (intro drawComponent_collapsing)
  then have "snd (drawComponent ?g1 k ?piece) =
      Some (let p = (boomTimer ?g - disappearTime ?piece) / 0.5 in
        \<lparr>dc_index = k,
         dc_model = [Translate (comp_x ?piece) (comp_y ?piece),
                     Translate (sin (boomTimer ?g * 20) * ((1 - p) * 0.1))
                               (cos (boomTimer ?g * 25) * ((1 - p) * 0.1)),
                     Rotate (p * 3.14159 * 2), Scale (1 - p * 0.8) (1 - p * 0.8),
                     Scale (comp_width ?piece) (comp_height ?piece)],
         dc_color = finalColor ?g k ?piece\<rparr>)"
    by (simp only: t finalColor_after_frame Let_def snd_conv)
  with assms(1) show ?thesis
    by (simp only: draws_of_piece Let_def option.case)
qed

text \<open>
  Claim C3.  While the collapse runs, a piece whose time since its disappear offset lies strictly
  between 0 and the window of 0.5 seconds is drawn with progress equal to that time divided
  by the window, with the model matrix translate, shake, rotate, uniform scale
  \<open>1 - 0.8 * progress\<close>, scale by (width, height), in this order.  At collapse clock = offset +
  half the window the progress is 0.5 and the uniform scale is 0.6, composed with the
  (width, height) scale.  A piece at or past the window has progress 1, is flagged removed
  and is not drawn.  This is stated for one call of \<open>drawComponent\<close> and for the draw list
  of the frames of every run: in a frame whose collapse clock puts piece \<open>k\<close> inside its window,
  the draw calls of the frame with index \<open>k\<close> are exactly the one call with this transform; in a
  frame that puts it at or past the window there is none and the piece is flagged; and the draw
  list of every frame is the list of the calls that \<open>drawComponent\<close> yields for the pieces
  0, 1, ... in this order.  Once a piece is flagged in a run with non-negative frame times it
  stays flagged and is drawn in no later frame for as long as R is not pressed.
\<close>

theorem collapse_piece_progress_and_removal:
  "(boomStarted g \<and> 0 < boomTimer g - disappearTime piece \<and>
      boomTimer g - disappearTime piece < 0.5 \<longrightarrow>
      (let p = (boomTimer g - disappearTime piece) / 0.5 in
       disappearProgressOf (boomTimer g - disappearTime piece) = p \<and>
       drawComponent g i piece =
         (g, Some \<lparr>dc_index = i,
            dc_model = [Translate (comp_x piece) (comp_y piece),
                        Translate (sin (boomTimer g * 20) * ((1 - p) * 0.1))
                                  (cos (boomTimer g * 25) * ((1 - p) * 0.1)),
                        Rotate (p * 3.14159 * 2), Scale (1 - p * 0.8) (1 - p * 0.8),
                        Scale (comp_width piece) (comp_height piece)],
            dc_color = finalColor g i piece\<rparr>))) \<and>
   (boomStarted g \<and> boomTimer g = disappearTime piece + 0.5 * 0.5 \<longrightarrow>
      disappearProgressOf (boomTimer g - disappearTime piece) = 0.5 \<and>
      drawComponent g i piece =
        (g, Some \<lparr>dc_index = i,
           dc_model = [Translate (comp_x piece) (comp_y piece),
                       Translate (sin (boomTimer g * 20) * 0.05) (cos (boomTimer g * 25) * 0.05),
                       Rotate 3.14159, Scale 0.6 0.6,
                       Scale (comp_width piece) (comp_height piece)],
           dc_color = finalColor g i piece\<rparr>) \<and>
      apply_model [Scale 0.6 0.6, Scale (comp_width piece) (comp_height piece)] (vx, vy) =
        (0.6 * (comp_width piece * vx), 0.6 * (comp_height piece * vy))) \<and>
   (boomStarted g \<and> 0.5 \<le> boomTimer g - disappearTime piece \<longrightarrow>
      disappearProgressOf (boomTimer g - disappearTime piece) = 1 \<and>
      drawComponent g i piece =
        (g\<lparr>componentDisappeared := (componentDisappeared g)[i := True]\<rparr>, None)) \<and>
   (k < length createBuildingComponents \<and>
      boomStarted (snd (fst (mainLoopIteration inp (mainLoop (initial_latches, initial_game) inps)))) \<and>
      0 < boomTimer (snd (fst (mainLoopIteration inp (mainLoop (initial_latches, initial_game) inps))))
            - disappearTime (createBuildingComponents ! k) \<and>
      boomTimer (snd (fst (mainLoopIteration inp (mainLoop (initial_latches, initial_game) inps))))
            - disappearTime (createBuildingComponents ! k) < 0.5 \<longrightarrow>
      (let g' = snd (fst (mainLoopIteration inp (mainLoop (initial_latches, initial_game) inps)));
           c = createBuildingComponents ! k;
           p = (boomTimer g' - disappearTime c) / 0.5 in
       filter (\<lambda>d. dc_index d = k) (fo_draws (snd (mainLoopIteration inp (mainLoop (initial_latches, initial_game) inps)))) =
         [\<lparr>dc_index = k,
           dc_model = [Translate (comp_x c) (comp_y c),
                       Translate (sin (boomTimer g' * 20) * ((1 - p) * 0.1))
                                 (cos (boomTimer g' * 25) * ((1 - p) * 0.1)),
                       Rotate (p * 3.14159 * 2), Scale (1 - p * 0.8) (1 - p * 0.8),
                       Scale (comp_width c) (comp_height c)],
           dc_color = finalColor g' k c\<rparr>])) \<and>
   (k < length createBuildingComponents \<and>
      boomStarted (snd (fst (mainLoopIteration inp (mainLoop (initial_latches, initial_game) inps)))) \<and>
      boomTimer (snd (fst (mainLoopIteration inp (mainLoop (initial_latches, initial_game) inps))))
        = disappearTime (createBuildingComponents ! k) + 0.5 * 0.5 \<longrightarrow>
      (let g' = snd (fst (mainLoopIteration inp (mainLoop (initial_latches, initial_game) inps)));
           c = createBuildingComponents ! k in
       filter (\<lambda>d. dc_index d = k) (fo_draws (snd (mainLoopIteration inp (mainLoop (initial_latches, initial_game) inps)))) =
         [\<lparr>dc_index = k,
           dc_model = [Translate (comp_x c) (comp_y c),
                       Translate (sin (boomTimer g' * 20) * 0.05) (cos (boomTimer g' * 25) * 0.05),
                       Rotate 3.14159, Scale 0.6 0.6,
                       Scale (comp_width c) (comp_height c)],
           dc_color = finalColor g' k c\<rparr>])) \<and>
   fo_draws (snd (mainLoopIteration inp (mainLoop (initial_latches, initial_game) inps))) =
     List.map_filter
       (\<lambda>j. snd (drawComponent (snd (updatePhase inp
                (mainLoop (initial_latches, initial_game) inps))) j (createBuildingComponents ! j)))
       [0..<length createBuildingComponents] \<and>
   (k < length createBuildingComponents \<and>
      boomStarted (snd (fst (mainLoopIteration inp (mainLoop (initial_latches, initial_game) inps)))) \<and>
      0.5 \<le> boomTimer (snd (fst (mainLoopIteration inp
                  (mainLoop (initial_latches, initial_game) inps))))
               - disappearTime (createBuildingComponents ! k) \<longrightarrow>
      componentDisappeared (snd (fst (mainLoopIteration inp
         (mainLoop (initial_latches, initial_game) inps)))) ! k \<and>
      k \<notin> dc_index ` set (fo_draws (snd (mainLoopIteration inp
         (mainLoop (initial_latches, initial_game) inps))))) \<and>
   ((\<forall>x \<in> set (inps_a @ inps_b @ [inp_b]). 0 \<le> deltaTime x) \<and>
      (\<forall>x \<in> set (inps_b @ [inp_b]). \<not> r_down x) \<and>
      k < length createBuildingComponents \<and>
      componentDisappeared (snd (mainLoop (initial_latches, initial_game) inps_a)) ! k \<longrightarrow>
      componentDisappeared (snd (fst (mainLoopIteration inp_b
         (mainLoop (initial_latches, initial_game) (inps_a @ inps_b))))) ! k \<and>
      k \<notin> dc_index ` set (fo_draws (snd (mainLoopIteration inp_b
         (mainLoop (initial_latches, initial_game) (inps_a @ inps_b))))))"
proof (intro conjI impI)
  assume a: "boomStarted g \<and> 0 < boomTimer g - disappearTime piece \<and>
      boomTimer g - disappearTime piece < 0.5"
  then have "disappearProgressOf (boomTimer g - disappearTime piece)
      = (boomTimer g - disappearTime piece) / 0.5"
    by (simp add: disappearProgressOf_def)
  with a show "let p = (boomTimer g - disappearTime piece) / 0.5 in
       disappearProgressOf (boomTimer g - disappearTime piece) = p \<and>
       drawComponent g i piece =
         (g, Some \<lparr>dc_index = i,
            dc_model = [Translate (comp_x piece) (comp_y piece),
                        Translate (sin (boomTimer g * 20) * ((1 - p) * 0.1))
                                  (cos (boomTimer g * 25) * ((1 - p) * 0.1)),
                        Rotate (p * 3.14159 * 2), Scale (1 - p * 0.8) (1 - p * 0.8),
                        Scale (comp_width piece) (comp_height piece)],
            dc_color = finalColor g i piece\<rparr>)"
    using drawComponent_collapsing [of g piece i] by (simp add: Let_def)
next
  assume b: "boomStarted g \<and> boomTimer g = disappearTime piece + 0.5 * 0.5"
  then show "disappearProgressOf (boomTimer g - disappearTime piece) = 0.5"
    by (simp add: disappearProgressOf_def)
  from b have "0 < boomTimer g - disappearTime piece"
    and "boomTimer g - disappearTime piece < 0.5"
    and "(boomTimer g - disappearTime piece) / 0.5 = 0.5"
    by simp_all
  with b show "drawComponent g i piece =
        (g, Some \<lparr>dc_index = i,
           dc_model = [Translate (comp_x piece) (comp_y piece),
                       Translate (sin (boomTimer g * 20) * 0.05) (cos (boomTimer g * 25) * 0.05),
                       Rotate 3.14159, Scale 0.6 0.6,
                       Scale (comp_width piece) (comp_height piece)],
           dc_color = finalColor g i piece\<rparr>)"
    using drawComponent_collapsing [of g piece i] by (simp add: Let_def)
  show "apply_model [Scale 0.6 0.6, Scale (comp_width piece) (comp_height piece)] (vx, vy) =
        (0.6 * (comp_width piece * vx), 0.6 * (comp_height piece * vy))"
    by (simp add: apply_model_def)
next
  assume c: "boomStarted g \<and> 0.5 \<le> boomTimer g - disappearTime piece"
  then show "disappearProgressOf (boomTimer g - disappearTime piece) = 1"
    by (simp add: disappearProgressOf_def)
  from c show "drawComponent g i piece =
        (g\<lparr>componentDisappeared := (componentDisappeared g)[i := True]\<rparr>, None)"
    by (simp add: drawComponent_removed)
next
  let ?lg = "mainLoop (initial_latches, initial_game) inps"
  assume w: "k < length createBuildingComponents \<and>
      boomStarted (snd (fst (mainLoopIteration inp ?lg))) \<and>
      0 < boomTimer (snd (fst (mainLoopIteration inp ?lg)))
            - disappearTime (createBuildingComponents ! k) \<and>
      boomTimer (snd (fst (mainLoopIteration inp ?lg)))
            - disappearTime (createBuildingComponents ! k) < 0.5"
  then show "let g' = snd (fst (mainLoopIteration inp ?lg));
           c = createBuildingComponents ! k;
           p = (boomTimer g' - disappearTime c) / 0.5 in
       filter (\<lambda>d. dc_index d = k) (fo_draws (snd (mainLoopIteration inp ?lg))) =
         [\<lparr>dc_index = k,
           dc_model = [Translate (comp_x c) (comp_y c),
                       Translate (sin (boomTimer g' * 20) * ((1 - p) * 0.1))
                                 (cos (boomTimer g' * 25) * ((1 - p) * 0.1)),
                       Rotate (p * 3.14159 * 2), Scale (1 - p * 0.8) (1 - p * 0.8),
                       Scale (comp_width c) (comp_height c)],
           dc_color = finalColor g' k c\<rparr>]"
    by (intro piece_drawn_in_frame) simp_all
next
  let ?lg = "mainLoop (initial_latches, initial_game) inps"
  let ?g = "snd (fst (mainLoopIteration inp ?lg))"
  let ?c = "createBuildingComponents ! k"
  assume h: "k < length createBuildingComponents \<and>
      boomStarted ?g \<and> boomTimer ?g = disappearTime ?c + 0.5 * 0.5"
  then have "0 < boomTimer ?g - disappearTime ?c"
    and "boomTimer ?g - disappearTime ?c < 0.5"
    and "(boomTimer ?g - disappearTime ?c) / 0.5 = 0.5"
    by simp_all
  with h show "let g' = ?g; c = ?c in
       filter (\<lambda>d. dc_index d = k) (fo_draws (snd (mainLoopIteration inp ?lg))) =
         [\<lparr>dc_index = k,
           dc_model = [Translate (comp_x c) (comp_y c),
                       Translate (sin (boomTimer g' * 20) * 0.05) (cos (boomTimer g' * 25) * 0.05),
                       Rotate 3.14159, Scale 0.6 0.6,
                       Scale (comp_width c) (comp_height c)],
           dc_color = finalColor g' k c\<rparr>]"
    using piece_drawn_in_frame [of k inp ?lg] by (simp add: Let_def)
next
  show "fo_draws (snd (mainLoopIteration inp (mainLoop (initial_latches, initial_game) inps))) =
     List.map_filter
       (\<lambda>j. snd (drawComponent (snd (updatePhase inp
                (mainLoop (initial_latches, initial_game) inps))) j (createBuildingComponents ! j)))
       [0..<length createBuildingComponents]"
    by (rule fo_draws_characterised)
next
  let ?lg = "mainLoop (initial_latches, initial_game) inps"
  assume e: "k < length createBuildingComponents \<and>
      boomStarted (snd (fst (mainLoopIteration inp ?lg))) \<and>
      0.5 \<le> boomTimer (snd (fst (mainLoopIteration inp ?lg)))
               - disappearTime (createBuildingComponents ! k)"
  have "arrays_ok (snd ?lg)"
    by (rule arrays_ok_mainLoop) (simp add: arrays_ok_initial)
  with e have "componentDisappeared (snd (fst (mainLoopIteration inp ?lg))) ! k \<and>
      k \<notin> dc_index ` set (fo_draws (snd (mainLoopIteration inp ?lg)))"
    by (intro piece_removed_in_frame) simp_all
  then show "componentDisappeared (snd (fst (mainLoopIteration inp ?lg))) ! k"
    and "k \<notin> dc_index ` set (fo_draws (snd (mainLoopIteration inp ?lg)))"
    by simp_all
next
  let ?s1 = "mainLoop (initial_latches, initial_game) inps_a"
  let ?lg = "mainLoop (initial_latches, initial_game) (inps_a @ inps_b)"
  assume d: "(\<forall>x \<in> set (inps_a @ inps_b @ [inp_b]). 0 \<le> deltaTime x) \<and>
      (\<forall>x \<in> set (inps_b @ [inp_b]). \<not> r_down x) \<and>
      k < length createBuildingComponents \<and>
      componentDisappeared (snd ?s1) ! k"
  then have "game_inv (snd ?lg)"
    by (intro game_inv_reached) auto
  moreover have "arrays_ok (snd ?s1)"
    by (rule arrays_ok_mainLoop) (simp add: arrays_ok_initial)
  with d have "componentDisappeared (snd (mainLoop ?s1 inps_b)) ! k"
    using flag_kept_mainLoop [of ?s1 k inps_b] by simp
  then have "componentDisappeared (snd ?lg) ! k"
    by (simp add: mainLoop_append)
  ultimately have "componentDisappeared (snd (fst (mainLoopIteration inp_b ?lg))) ! k \<and>
      k \<notin> dc_index ` set (fo_draws (snd (mainLoopIteration inp_b ?lg)))"
    using d by (intro removed_piece_not_drawn) simp_all
  then show "componentDisappeared (snd (fst (mainLoopIteration inp_b ?lg))) ! k"
    and "k \<notin> dc_index ` set (fo_draws (snd (mainLoopIteration inp_b ?lg)))"
    by simp_all
qed

lemma fst_drawLoop_Nil: "fst (drawLoop [] k g) = g"
  by simp

lemmas collapse_run_simps = fst_drawLoop_Cons fst_drawLoop_Nil drawComponent_fst
  createBuildingComponents_def mkComponent_def

lemma collapse_render_state:
  "boomStarted (snd (updatePhase (frame False False 0.6)
      (mainLoop (initial_latches, initial_game) [frame False False 2]))) \<and>
   boomTimer (snd (updatePhase (frame False False 0.6)
      (mainLoop (initial_latches, initial_game) [frame False False 2]))) = 0.6"
  by (simp add: run_simps)

lemma collapse_later_state:
  "boomStarted (snd (fst (mainLoopIteration (frame False False 0.3)
      (mainLoop (initial_latches, initial_game) [frame False False 2, frame False False 0.6])))) \<and>
   boomTimer (snd (fst (mainLoopIteration (frame False False 0.3)
      (mainLoop (initial_latches, initial_game) [frame False False 2, frame False False 0.6]))))
     = 0.9"
  by (simp add: snd_fst_mainLoopIteration drawLoop_fields)
     (simp add: run_simps collapse_run_simps del: drawLoop.simps)

lemma first_piece:
  "createBuildingComponents ! 0 = mkComponent (-3.0) 0.5 2.0 5.0 (0.8, 0.4, 0.2) 0.35"
  by (simp add: createBuildingComponents_def)

lemma second_piece:
  "createBuildingComponents ! 1 = mkComponent 0.0 0.2 4.4 2.0 (0.8, 0.4, 0.2) 0.4"
  by (simp add: createBuildingComponents_def)

theorem collapse_piece_progress_and_removal_witness:
  "boomStarted (snd (updatePhase (frame False False 0.6)
      (mainLoop (initial_latches, initial_game) [frame False False 2]))) \<and>
   boomTimer (snd (updatePhase (frame False False 0.6)
      (mainLoop (initial_latches, initial_game) [frame False False 2])))
     = disappearTime (createBuildingComponents ! 0) + 0.5 * 0.5 \<and>
   disappearProgressOf (boomTimer (snd (updatePhase (frame False False 0.6)
      (mainLoop (initial_latches, initial_game) [frame False False 2])))
        - disappearTime (createBuildingComponents ! 0)) = 0.5 \<and>
   map_option dc_model (snd (drawComponent (snd (updatePhase (frame False False 0.6)
      (mainLoop (initial_latches, initial_game) [frame False False 2]))) 0
        (createBuildingComponents ! 0))) =
     Some [Translate (- 3) 0.5, Translate (sin 12 * 0.05) (cos 15 * 0.05),
           Rotate 3.14159, Scale 0.6 0.6, Scale 2 5] \<and>
   filter (\<lambda>d. dc_index d = 0) (fo_draws (snd (mainLoopIteration (frame False False 0.6)
      (mainLoop (initial_latches, initial_game) [frame False False 2])))) =
     [\<lparr>dc_index = 0,
       dc_model = [Translate (- 3) 0.5, Translate (sin 12 * 0.05) (cos 15 * 0.05),
                   Rotate 3.14159, Scale 0.6 0.6, Scale 2 5],
       dc_color = (0.8, 0.4, 0.2, 1)\<rparr>] \<and>
   disappearProgressOf (boomTimer (snd (updatePhase (frame False False 0.6)
      (mainLoop (initial_latches, initial_game) [frame False False 2])))
        - disappearTime (createBuildingComponents ! 1)) = 0.4 \<and>
   filter (\<lambda>d. dc_index d = 1) (fo_draws (snd (mainLoopIteration (frame False False 0.6)
      (mainLoop (initial_latches, initial_game) [frame False False 2])))) =
     [\<lparr>dc_index = 1,
       dc_model = [Translate 0 0.2, Translate (sin 12 * 0.06) (cos 15 * 0.06),
                   Rotate 2.513272, Scale 0.68 0.68, Scale 4.4 2],
       dc_color = (0.8, 0.4, 0.2, 1)\<rparr>] \<and>
   snd (drawComponent (snd (mainLoop (initial_latches, initial_game)
      [frame False False 2, frame False False 0.6, frame False False 0.3])) 0
        (createBuildingComponents ! 0)) = None \<and>
   componentDisappeared (snd (mainLoop (initial_latches, initial_game)
      [frame False False 2, frame False False 0.6, frame False False 0.3])) ! 0 \<and>
   0 \<notin> dc_index ` set (fo_draws (snd (mainLoopIteration (frame False False 0.3)
      (mainLoop (initial_latches, initial_game) [frame False False 2, frame False False 0.6])))) \<and>
   componentDisappeared (snd (mainLoop (initial_latches, initial_game)
      [frame False False 2, frame False False 0.6, frame False False 0.3,
       frame True False 0.2, frame False False 0.1])) ! 0 \<and>
   0 \<notin> dc_index ` set (fo_draws (snd (mainLoopIteration (frame False False 0.1)
      (mainLoop (initial_latches, initial_game)
        [frame False False 2, frame False False 0.6, frame False False 0.3,
         frame True False 0.2]))))"
proof -
  define G where "G = snd (updatePhase (frame False False 0.6)
      (mainLoop (initial_latches, initial_game) [frame False False 2]))"
  define P where "P = createBuildingComponents ! 0"
  define S2 where "S2 = mainLoop (initial_latches, initial_game)
      [frame False False 2, frame False False 0.6]"
  have P: "comp_x P = - 3" "comp_y P = 0.5" "comp_width P = 2" "comp_height P = 5"
    "disappearTime P = 0.35"
    by (simp_all add: P_def first_piece mkComponent_def)
  from collapse_render_state have G: "boomStarted G" "boomTimer G = 0.6"
    by (simp_all add: G_def)
  have hb: "boomStarted G \<and> boomTimer G = disappearTime P + 0.5 * 0.5"
    using G P by simp
  note thm_b = collapse_piece_progress_and_removal [where g = G and piece = P and i = 0]
  from thm_b hb have b1: "disappearProgressOf (boomTimer G - disappearTime P) = 0.5"
    and b2: "drawComponent G 0 P =
        (G, Some \<lparr>dc_index = 0,
           dc_model = [Translate (comp_x P) (comp_y P),
                       Translate (sin (boomTimer G * 20) * 0.05) (cos (boomTimer G * 25) * 0.05),
                       Rotate 3.14159, Scale 0.6 0.6,
                       Scale (comp_width P) (comp_height P)],
           dc_color = finalColor G 0 P\<rparr>)"
    by blast+
  have b3: "map_option dc_model (snd (drawComponent G 0 P)) =
     Some [Translate (- 3) 0.5, Translate (sin 12 * 0.05) (cos 15 * 0.05),
           Rotate 3.14159, Scale 0.6 0.6, Scale 2 5]"
    unfolding b2 by (simp add: P G)
  define S1 where "S1 = mainLoop (initial_latches, initial_game) [frame False False 2]"
  define GF where "GF = snd (fst (mainLoopIteration (frame False False 0.6) S1))"
  have k: "0 < length createBuildingComponents"
    by (simp add: length_createBuildingComponents)
  from collapse_render_state have F: "boomStarted GF" "boomTimer GF = 0.6"
    by (simp_all add: GF_def S1_def snd_fst_mainLoopIteration drawLoop_fields)
  have hf: "boomTimer GF = disappearTime P + 0.5 * 0.5"
    using F P by simp
  note thm_f = collapse_piece_progress_and_removal
    [where k = 0 and inp = "frame False False 0.6" and inps = "[frame False False 2]"]
  from thm_f k F(1) hf
  have f0: "let g' = GF; c = P in
       filter (\<lambda>d. dc_index d = 0) (fo_draws (snd (mainLoopIteration (frame False False 0.6) S1))) =
         [\<lparr>dc_index = 0,
           dc_model = [Translate (comp_x c) (comp_y c),
                       Translate (sin (boomTimer g' * 20) * 0.05) (cos (boomTimer g' * 25) * 0.05),
                       Rotate 3.14159, Scale 0.6 0.6,
                       Scale (comp_width c) (comp_height c)],
           dc_color = finalColor g' 0 c\<rparr>]"
    unfolding GF_def S1_def P_def by blast
  have col: "finalColor GF 0 P = (0.8, 0.4, 0.2, 1)"
    by (simp add: finalColor_def P_def first_piece mkComponent_def)
  from f0 have f1: "filter (\<lambda>d. dc_index d = 0)
      (fo_draws (snd (mainLoopIteration (frame False False 0.6) S1))) =
     [\<lparr>dc_index = 0,
       dc_model = [Translate (- 3) 0.5, Translate (sin 12 * 0.05) (cos 15 * 0.05),
                   Rotate 3.14159, Scale 0.6 0.6, Scale 2 5],
       dc_color = (0.8, 0.4, 0.2, 1)\<rparr>]"
    by (simp add: Let_def P F col)
  define Q where "Q = createBuildingComponents ! 1"
  have Q: "comp_x Q = 0" "comp_y Q = 0.2" "comp_width Q = 4.4" "comp_height Q = 2"
    "disappearTime Q = 0.4"
    unfolding Q_def second_piece by (simp_all add: mkComponent_def)
  have k1: "1 < length createBuildingComponents"
    by (simp add: length_createBuildingComponents)
  have ha: "boomStarted G \<and> 0 < boomTimer G - disappearTime Q \<and>
      boomTimer G - disappearTime Q < 0.5"
    using G Q by simp
  note thm_a = collapse_piece_progress_and_removal [where g = G and piece = Q and i = 1,
      unfolded Let_def]
  from thm_a ha have "disappearProgressOf (boomTimer G - disappearTime Q)
      = (boomTimer G - disappearTime Q) / 0.5"
    by blast
  then have a1: "disappearProgressOf (boomTimer G - disappearTime Q) = 0.4"
    by (simp add: G Q)
  have hw: "0 < boomTimer GF - disappearTime Q" "boomTimer GF - disappearTime Q < 0.5"
    using F Q by simp_all
  note thm_w = collapse_piece_progress_and_removal
    [where k = 1 and inp = "frame False False 0.6" and inps = "[frame False False 2]"]
  from thm_w k1 F(1) hw
  have w0: "let g' = GF; c = Q; p = (boomTimer g' - disappearTime c) / 0.5 in
       filter (\<lambda>d. dc_index d = 1) (fo_draws (snd (mainLoopIteration (frame False False 0.6) S1))) =
         [\<lparr>dc_index = 1,
           dc_model = [Translate (comp_x c) (comp_y c),
                       Translate (sin (boomTimer g' * 20) * ((1 - p) * 0.1))
                                 (cos (boomTimer g' * 25) * ((1 - p) * 0.1)),
                       Rotate (p * 3.14159 * 2), Scale (1 - p * 0.8) (1 - p * 0.8),
                       Scale (comp_width c) (comp_height c)],
           dc_color = finalColor g' 1 c\<rparr>]"
    unfolding GF_def S1_def Q_def by blast
  have colQ: "finalColor GF (Suc 0) Q = (0.8, 0.4, 0.2, 1)"
    unfolding Q_def second_piece by (simp add: finalColor_def mkComponent_def)
  from w0 have w1: "filter (\<lambda>d. dc_index d = 1)
      (fo_draws (snd (mainLoopIteration (frame False False 0.6) S1))) =
     [\<lparr>dc_index = 1,
       dc_model = [Translate 0 0.2, Translate (sin 12 * 0.06) (cos 15 * 0.06),
                   Rotate 2.513272, Scale 0.68 0.68, Scale 4.4 2],
       dc_color = (0.8, 0.4, 0.2, 1)\<rparr>]"
    by (simp add: Let_def Q F colQ)
  from collapse_later_state
  have L: "boomStarted (snd (fst (mainLoopIteration (frame False False 0.3) S2)))"
    "boomTimer (snd (fst (mainLoopIteration (frame False False 0.3) S2))) = 0.9"
    by (simp_all add: S2_def)
  have he: "0.5 \<le> boomTimer (snd (fst (mainLoopIteration (frame False False 0.3) S2)))
      - disappearTime (createBuildingComponents ! 0)"
    using P by (simp add: L P_def)
  note thm_e = collapse_piece_progress_and_removal
    [where k = 0 and inp = "frame False False 0.3"
       and inps = "[frame False False 2, frame False False 0.6]"]
  from thm_e k L(1) he
  have e1: "componentDisappeared (snd (fst (mainLoopIteration (frame False False 0.3) S2))) ! 0"
    and e2: "0 \<notin> dc_index ` set (fo_draws (snd (mainLoopIteration (frame False False 0.3) S2)))"
    unfolding S2_def by blast+
  have run3: "fst (mainLoopIteration (frame False False 0.3) S2) =
      mainLoop (initial_latches, initial_game)
        [frame False False 2, frame False False 0.6, frame False False 0.3]"
    by (simp add: S2_def)
  have hd1: "\<forall>x \<in> set ([frame False False 2, frame False False 0.6, frame False False 0.3]
        @ [frame True False 0.2] @ [frame False False 0.1]). 0 \<le> deltaTime x"
    by (simp add: frame_def)
  have hd2: "\<forall>x \<in> set ([frame True False 0.2] @ [frame False False 0.1]). \<not> r_down x"
    by (simp add: frame_def)
  have hd3: "componentDisappeared (snd (mainLoop (initial_latches, initial_game)
      [frame False False 2, frame False False 0.6, frame False False 0.3])) ! 0"
    using e1 by (simp only: run3)
  define G3 where "G3 = snd (mainLoop (initial_latches, initial_game)
      [frame False False 2, frame False False 0.6, frame False False 0.3])"
  have g3: "G3 = snd (fst (mainLoopIteration (frame False False 0.3) S2))"
    by (simp only: G3_def run3)
  have hc: "boomStarted G3 \<and> 0.5 \<le> boomTimer G3 - disappearTime P"
    using P by (simp add: g3 L)
  note thm_c = collapse_piece_progress_and_removal [where g = G3 and piece = P and i = 0]
  from thm_c hc have "drawComponent G3 0 P =
        (G3\<lparr>componentDisappeared := (componentDisappeared G3)[0 := True]\<rparr>, None)"
    by blast
  then have c1: "snd (drawComponent G3 0 P) = None"
    by simp
  note thm_d = collapse_piece_progress_and_removal
    [where k = 0 and inp_b = "frame False False 0.1" and inps_b = "[frame True False 0.2]"
       and inps_a = "[frame False False 2, frame False False 0.6, frame False False 0.3]"]
  from thm_d hd1 hd2 hd3 k
  have d: "componentDisappeared (snd (fst (mainLoopIteration (frame False False 0.1)
         (mainLoop (initial_latches, initial_game)
           ([frame False False 2, frame False False 0.6, frame False False 0.3]
             @ [frame True False 0.2]))))) ! 0 \<and>
      0 \<notin> dc_index ` set (fo_draws (snd (mainLoopIteration (frame False False 0.1)
         (mainLoop (initial_latches, initial_game)
           ([frame False False 2, frame False False 0.6, frame False False 0.3]
             @ [frame True False 0.2])))))"
    by blast
  from d have d1: "componentDisappeared (snd (mainLoop (initial_latches, initial_game)
      [frame False False 2, frame False False 0.6, frame False False 0.3,
       frame True False 0.2, frame False False 0.1])) ! 0"
    by simp
  from d have d2: "0 \<notin> dc_index ` set (fo_draws (snd (mainLoopIteration (frame False False 0.1)
      (mainLoop (initial_latches, initial_game)
        [frame False False 2, frame False False 0.6, frame False False 0.3,
         frame True False 0.2]))))"
    by simp
  from G(1) hb b1 b3 f1 a1 w1 c1 hd3 e2 d1 d2 show ?thesis
    unfolding G_def P_def Q_def S1_def S2_def G3_def by blast
qed

subsection \<open>A round that is won\<close>

lemma press_release_first:
  "mainLoop (initial_latches, initial_game) [frame True False 1.25, frame False False 0]
     = (initial_latches, held_state 1.25)"
  by (simp add: held_state_def run_simps)

lemma press_release_next:
  "t + 1.25 < 10 \<Longrightarrow>
   mainLoop (initial_latches, held_state t) [frame True False 1.25, frame False False 0]
     = (initial_latches, held_state (t + 1.25))"
  by (simp add: held_state_def run_simps)

lemma press_release_cycles:
  "t + 1.25 * real n < 10 \<Longrightarrow>
   mainLoop (initial_latches, held_state t)
     (concat (replicate n [frame True False 1.25, frame False False 0]))
     = (initial_latches, held_state (t + 1.25 * real n))"
proof (induction n arbitrary: t)
  case 0
  show ?case by simp
next
  case (Suc n)
  let ?c = "[frame True False 1.25, frame False False 0]"
  from Suc.prems have "t + 1.25 + 1.25 * real n < 10"
    by (simp add: field_simps)
  moreover have "0 \<le> 1.25 * real n"
    by simp
  ultimately have t: "t + 1.25 < 10" and rest: "(t + 1.25) + 1.25 * real n < 10"
    by linarith+
  have "mainLoop (initial_latches, held_state t) (concat (replicate (Suc n) ?c))
      = mainLoop (mainLoop (initial_latches, held_state t) ?c) (concat (replicate n ?c))"
    by (simp only: replicate_Suc concat.simps mainLoop_append)
  also have "\<dots> = mainLoop (initial_latches, held_state (t + 1.25)) (concat (replicate n ?c))"
    using t by (simp only: press_release_next)
  also have "\<dots> = (initial_latches, held_state ((t + 1.25) + 1.25 * real n))"
    using rest by (rule Suc.IH)
  also have "(t + 1.25) + 1.25 * real n = t + 1.25 * real (Suc n)"
    by (simp add: field_simps)
  finally show ?case .
qed

lemma win_run_state:
  "mainLoop (initial_latches, initial_game) win_run = (initial_latches, held_state 8.75)"
proof -
  let ?c = "[frame True False 1.25, frame False False 0]"
  have w: "win_run = ?c @ concat (replicate 6 ?c)"
    by (simp add: win_run_def numeral_eq_Suc)
  have "mainLoop (initial_latches, initial_game) win_run
      = mainLoop (initial_latches, held_state 1.25) (concat (replicate 6 ?c))"
    unfolding w mainLoop_append press_release_first ..
  also have "\<dots> = (initial_latches, held_state (1.25 + 1.25 * real 6))"
    by (rule press_release_cycles) simp
  finally show ?thesis
    by simp
qed

theorem updateGameLogic_win_at_duration_witness:
  "inProgress (snd (processInput (frame True False 1.25)
      (mainLoop (initial_latches, initial_game) win_run))) \<and>
   pillarOpacity (snd (processInput (frame True False 1.25)
      (mainLoop (initial_latches, initial_game) win_run))) = [1, 1, 1, 1] \<and>
   gameTimer (snd (processInput (frame True False 1.25)
      (mainLoop (initial_latches, initial_game) win_run))) + 1.25 = GAME_DURATION \<and>
   won (updateGameLogic 1.25 (snd (processInput (frame True False 1.25)
      (mainLoop (initial_latches, initial_game) win_run)))) \<and>
   gameTimer (updateGameLogic 1.25 (snd (processInput (frame True False 1.25)
      (mainLoop (initial_latches, initial_game) win_run)))) = 10 \<and>
   won (snd (mainLoop (initial_latches, initial_game) (win_run @ [frame True False 1.25])))"
proof -
  define g where "g = snd (processInput (frame True False 1.25)
      (mainLoop (initial_latches, initial_game) win_run))"
  have g: "g = (held_state 8.75)\<lparr>pillarOpacity := [1, 1, 1, 1]\<rparr>"
    unfolding g_def win_run_state
    by (simp add: held_state_def processInput_def boostPillars_def upt_0_4 frame_def
          initial_game_def initial_latches_def OPACITY_GAIN_RATE_def Let_def)
  have h1: "inProgress g" and h2: "\<not> boomStarted g" and h3: "length (pillarOpacity g) = 4"
    and po: "pillarOpacity g = [1, 1, 1, 1]"
    by (simp_all add: g held_state_def initial_game_def inProgress_def)
  have h4: "\<forall>p \<in> set (pillarOpacity g). OPACITY_THRESHOLD \<le> max (p - OPACITY_FADE_RATE * 1.25) 0"
    by (simp add: po OPACITY_THRESHOLD_def OPACITY_FADE_RATE_def)
  have h5: "gameTimer g + 1.25 = GAME_DURATION"
    by (simp add: g held_state_def GAME_DURATION_def)
  have run: "won (snd (mainLoop (initial_latches, initial_game) (win_run @ [frame True False 1.25])))"
    unfolding mainLoop_append win_run_state
    by (simp add: held_state_def run_simps won_def)
  have "inProgress g \<and> pillarOpacity g = [1, 1, 1, 1] \<and> gameTimer g + 1.25 = GAME_DURATION \<and>
        won (updateGameLogic 1.25 g) \<and> gameTimer (updateGameLogic 1.25 g) = 10"
    using updateGameLogic_win_at_duration [OF h1 h2 h3 h4 h5] h1 h5 po by blast
  with run show ?thesis
    unfolding g_def by blast
qed

section \<open>Properties of the line rasteriser\<close>

subsection \<open>One step of the loop\<close>

lemma in_int_between:
  assumes "in_int a" and "in_int b" and "a \<le> v \<and> v \<le> b \<or> b \<le> v \<and> v \<le> a"
  shows "in_int v"
  using assms unfolding in_int_def by linarith

lemma bres_no_x_step_at_end:
  assumes "bres_inv dx dy i j err" and "i = dx" and "j < dy"
  shows "2 * err \<le> - dy"
proof -
  from assms have err: "err = (j + 1) * dx - (dx + 1) * dy" and "0 \<le> dx" and "0 \<le> j"
    by (auto simp add: bres_inv_def)
  from \<open>j < dy\<close> \<open>0 \<le> dx\<close> have "(j + 1) * dx \<le> dy * dx"
    by (intro mult_right_mono) simp_all
  then have "err \<le> - dy"
    by (simp add: err algebra_simps)
  with \<open>0 \<le> j\<close> \<open>j < dy\<close> show ?thesis by simp
qed

lemma bres_no_y_step_at_end:
  assumes "bres_inv dx dy i j err" and "j = dy" and "i < dx"
  shows "dx \<le> 2 * err"
proof -
  from assms have err: "err = (dy + 1) * dx - (i + 1) * dy" and "0 \<le> dy" and "0 \<le> i"
    by (auto simp add: bres_inv_def)
  from \<open>i < dx\<close> \<open>0 \<le> dy\<close> have "(i + 1) * dy \<le> dx * dy"
    by (intro mult_right_mono) simp_all
  then have "dx \<le> err"
    by (simp add: err algebra_simps)
  with \<open>0 \<le> i\<close> \<open>i < dx\<close> show ?thesis by simp
qed

lemma Bresenham_step_cases:
  assumes "in_int (2 * err)" and "in_int (- dy)"
    and "- dy < 2 * err \<Longrightarrow> in_int (err - dy) \<and> in_int (x + sx)"
    and "2 * err < dx \<Longrightarrow>
           in_int ((if - dy < 2 * err then err - dy else err) + dx) \<and> in_int (y + sy)"
  shows "Bresenham_step dx dy sx sy (err, x, y) =
     Inr (if 2 * err < dx then (if - dy < 2 * err then err - dy else err) + dx
          else (if - dy < 2 * err then err - dy else err),
          if - dy < 2 * err then x + sx else x,
          if 2 * err < dx then y + sy else y)"
  using assms
  by (cases "- dy < 2 * err"; cases "2 * err < dx") (simp_all add: Bresenham_step_def Let_def)

lemma Bresenham_step_inv:
  assumes inv: "bres_inv dx dy i j err" and notdone: "i \<noteq> dx \<or> j \<noteq> dy"
    and rng: "3 * dx \<le> INT_MAX" "3 * dy \<le> INT_MAX"
    and sgn: "sx = 1 \<or> sx = - 1" "sy = 1 \<or> sy = - 1"
    and ends: "in_int X0" "in_int (X0 + sx * dx)" "in_int Y0" "in_int (Y0 + sy * dy)"
  shows "\<exists>i' j' err'.
     Bresenham_step dx dy sx sy (err, X0 + sx * i, Y0 + sy * j)
       = Inr (err', X0 + sx * i', Y0 + sy * j') \<and>
     bres_inv dx dy i' j' err' \<and> i \<le> i' \<and> j \<le> j' \<and> i + j < i' + j'"
proof -
  define A where "A \<longleftrightarrow> 2 * err > - dy"
  define B where "B \<longleftrightarrow> 2 * err < dx"
  define i' where "i' = (if A then i + 1 else i)"
  define j' where "j' = (if B then j + 1 else j)"
  define err1 where "err1 = (if A then err - dy else err)"
  define err' where "err' = (if B then err1 + dx else err1)"
  from inv have i: "0 \<le> i" "i \<le> dx" and j: "0 \<le> j" "j \<le> dy"
    and err: "err = (j + 1) * dx - (i + 1) * dy"
    and lo: "- 3 * dy \<le> 2 * err" and hi: "2 * err \<le> 3 * dx"
    by (simp_all add: bres_inv_def)
  from i j have dx: "0 \<le> dx" and dy: "0 \<le> dy" by simp_all
  have Ai: "i < dx" if A
  proof (rule ccontr)
    assume "\<not> i < dx"
    with i have "i = dx" by simp
    with notdone j have "j < dy" by simp
    with inv \<open>i = dx\<close> have "2 * err \<le> - dy" by (rule bres_no_x_step_at_end)
    with that show False by (simp add: A_def)
  qed
  have Bj: "j < dy" if B
  proof (rule ccontr)
    assume "\<not> j < dy"
    with j have "j = dy" by simp
    with notdone i have "i < dx" by simp
    with inv \<open>j = dy\<close> have "dx \<le> 2 * err" by (rule bres_no_y_step_at_end)
    with that show False by (simp add: B_def)
  qed
  have AB: "A \<or> B"
  proof -
    from notdone i j have "0 < dx + dy" by linarith
    then show ?thesis unfolding A_def B_def by linarith
  qed
  have i': "0 \<le> i'" "i' \<le> dx" "i \<le> i'" and j': "0 \<le> j'" "j' \<le> dy" "j \<le> j'"
    using i j Ai Bj by (auto simp add: i'_def j'_def)
  have progress: "i + j < i' + j'"
    using AB by (auto simp add: i'_def j'_def)
  have err1: "err1 = (j + 1) * dx - (i' + 1) * dy"
    by (simp add: err1_def i'_def err algebra_simps)
  have err': "err' = (j' + 1) * dx - (i' + 1) * dy"
    by (simp add: err'_def j'_def err1 algebra_simps)
  have b1: "- 3 * dy \<le> 2 * err1" "2 * err1 \<le> 3 * dx"
    using lo hi dx dy by (auto simp add: err1_def A_def)
  have b': "- 3 * dy \<le> 2 * err'" "2 * err' \<le> 3 * dx"
    using lo hi dx dy AB by (auto simp add: err'_def err1_def A_def B_def)
  have inv': "bres_inv dx dy i' j' err'"
    using i' j' err' b' by (simp add: bres_inv_def)
  have r0: "in_int (2 * err)" "in_int (- dy)"
    using lo hi dx dy rng by (simp_all add: in_int_def INT_MIN_def INT_MAX_def)
  have r1: "in_int err1"
    using b1 dx dy rng by (simp add: in_int_def INT_MIN_def INT_MAX_def)
  have r2: "in_int err'"
    using b' dx dy rng by (simp add: in_int_def INT_MIN_def INT_MAX_def)
  have rx: "in_int (X0 + sx * i')"
  proof -
    have "X0 \<le> X0 + sx * i' \<and> X0 + sx * i' \<le> X0 + sx * dx \<or>
        X0 + sx * dx \<le> X0 + sx * i' \<and> X0 + sx * i' \<le> X0"
      using sgn(1) i' by (elim disjE) simp_all
    with ends(1,2) show ?thesis by (rule in_int_between)
  qed
  have ry: "in_int (Y0 + sy * j')"
  proof -
    have "Y0 \<le> Y0 + sy * j' \<and> Y0 + sy * j' \<le> Y0 + sy * dy \<or>
        Y0 + sy * dy \<le> Y0 + sy * j' \<and> Y0 + sy * j' \<le> Y0"
      using sgn(2) j' by (elim disjE) simp_all
    with ends(3,4) show ?thesis by (rule in_int_between)
  qed
  have xs: "X0 + sx * i' = (if A then X0 + sx * i + sx else X0 + sx * i)"
    and ys: "Y0 + sy * j' = (if B then Y0 + sy * j + sy else Y0 + sy * j)"
    by (simp_all add: i'_def j'_def algebra_simps)
  have "Bresenham_step dx dy sx sy (err, X0 + sx * i, Y0 + sy * j)
       = Inr (err', X0 + sx * i', Y0 + sy * j')"
    unfolding xs ys err'_def
  proof (rule Bresenham_step_cases [of err dy _ _ dx, folded A_def B_def err1_def])
    show "in_int (2 * err)" and "in_int (- dy)" by (rule r0)+
    show "in_int (err - dy) \<and> in_int (X0 + sx * i + sx)" if A
      using r1 rx that by (simp add: err1_def xs)
    show "in_int (err1 + dx) \<and> in_int (Y0 + sy * j + sy)" if B
      using r2 ry that by (simp add: err'_def ys)
  qed
  with inv' i' j' progress show ?thesis by blast
qed

subsection \<open>The loop reaches the end point\<close>

lemma drop_last3_append:
  assumes "3 \<le> length ys"
  shows "drop (length (xs @ ys) - 3) (xs @ ys) = drop (length ys - 3) ys"
proof -
  from assms have "length (xs @ ys) - 3 = length xs + (length ys - 3)"
    by simp
  then show ?thesis
    by (simp only: drop_append) simp
qed

lemma in_int_abs:
  assumes "3 * \<bar>a\<bar> \<le> INT_MAX"
  shows "in_int a"
proof -
  have "\<bar>a\<bar> \<le> 3 * \<bar>a\<bar>" by simp
  then have "\<bar>a\<bar> \<le> INT_MAX" using assms by (rule order_trans)
  then have "- INT_MAX \<le> a \<and> a \<le> INT_MAX"
    by (simp add: abs_le_iff)
  then show ?thesis
    by (simp add: in_int_def INT_MIN_def INT_MAX_def)
qed

lemma Bresenham_loop_reaches_end:
  assumes rng: "3 * dx \<le> INT_MAX" "3 * dy \<le> INT_MAX"
    and sgn: "sx = 1 \<or> sx = - 1" "sy = 1 \<or> sy = - 1"
    and ends: "in_int X0" "in_int (X0 + sx * dx)" "in_int Y0" "in_int (Y0 + sy * dy)"
    and inv: "bres_inv dx dy i j err"
    and n: "n = nat (dx - i + (dy - j))"
  shows "\<exists>out. Bresenham_loop (X0 + sx * dx) (Y0 + sy * dy) dx dy sx sy
              (err, X0 + sx * i, Y0 + sy * j) pts = Some (Inr (pts @ out)) \<and>
           take 3 out = [real_of_int (X0 + sx * i) / 1000, real_of_int (Y0 + sy * j) / 1000, 0] \<and>
           drop (length out - 3) out =
             [real_of_int (X0 + sx * dx) / 1000, real_of_int (Y0 + sy * dy) / 1000, 0] \<and>
           3 \<le> length out \<and> length out \<le> 3 * (n + 1)"
  using inv n
proof (induction n arbitrary: i j err pts rule: less_induct)
  case (less n)
  let ?x = "X0 + sx * i" and ?y = "Y0 + sy * j"
  let ?p = "[real_of_int ?x / 1000, real_of_int ?y / 1000, 0]"
  from less.prems(1) have ij: "0 \<le> i" "i \<le> dx" "0 \<le> j" "j \<le> dy"
    by (simp_all add: bres_inv_def)
  from sgn(1) have xe: "?x = X0 + sx * dx \<longleftrightarrow> i = dx" by auto
  from sgn(2) have ye: "?y = Y0 + sy * dy \<longleftrightarrow> j = dy" by auto
  show ?case
  proof (cases "i = dx \<and> j = dy")
    case True
    then have "Bresenham_loop (X0 + sx * dx) (Y0 + sy * dy) dx dy sx sy (err, ?x, ?y) pts
        = Some (Inr (pts @ ?p))"
      by (subst Bresenham_loop.simps) simp
    with True show ?thesis by simp
  next
    case False
    then have notdone: "i \<noteq> dx \<or> j \<noteq> dy" by simp
    from Bresenham_step_inv [OF less.prems(1) notdone rng sgn ends]
    obtain i' j' err' where
      step: "Bresenham_step dx dy sx sy (err, ?x, ?y) = Inr (err', X0 + sx * i', Y0 + sy * j')"
      and inv': "bres_inv dx dy i' j' err'"
      and mono: "i \<le> i'" "j \<le> j'" "i + j < i' + j'"
      by blast
    from inv' have ij': "i' \<le> dx" "j' \<le> dy"
      by (simp_all add: bres_inv_def)
    define m where "m = nat (dx - i' + (dy - j'))"
    from mono ij' less.prems(2) have m: "m < n"
      unfolding m_def by linarith
    from less.IH [OF m inv' m_def, of "pts @ ?p"]
    obtain out where
      run: "Bresenham_loop (X0 + sx * dx) (Y0 + sy * dy) dx dy sx sy
              (err', X0 + sx * i', Y0 + sy * j') (pts @ ?p) = Some (Inr ((pts @ ?p) @ out))"
      and last: "drop (length out - 3) out =
             [real_of_int (X0 + sx * dx) / 1000, real_of_int (Y0 + sy * dy) / 1000, 0]"
      and len: "3 \<le> length out" "length out \<le> 3 * (m + 1)"
      by blast
    from False xe ye have ne: "\<not> (?x = X0 + sx * dx \<and> ?y = Y0 + sy * dy)"
      by simp
    have "Bresenham_loop (X0 + sx * dx) (Y0 + sy * dy) dx dy sx sy (err, ?x, ?y) pts
        = Some (Inr (pts @ (?p @ out)))"
      using sgn False
      by (subst Bresenham_loop.simps) (auto simp add: Let_def step run simp del: of_int_add of_int_mult)
    moreover have "take 3 (?p @ out) = ?p"
      by simp
    moreover from len(1) have "drop (length (?p @ out) - 3) (?p @ out) = drop (length out - 3) out"
      by (rule drop_last3_append)
    moreover from len m have "3 \<le> length (?p @ out)" "length (?p @ out) \<le> 3 * (n + 1)"
      by simp_all
    ultimately show ?thesis
      using last by (intro exI [of _ "?p @ out"]) (simp only: simp_thms)
  qed
qed

lemma bres_inv_initial: "0 \<le> dx \<Longrightarrow> 0 \<le> dy \<Longrightarrow> bres_inv dx dy 0 0 (dx - dy)"
  by (simp add: bres_inv_def)

text \<open>
  Claim C10.  (as amended)  When the four scaled and rounded coordinates fit in \<^verbatim>\<open>int\<close> and the
  two distances \<open>|X1 - X0|\<close> and \<open>|Y1 - Y0|\<close> are at most a third of \<open>INT_MAX\<close>, no
  arithmetic of \<^verbatim>\<open>Bresenham\<close> overflows, the loop reaches \<open>(X1, Y1)\<close> and the function returns a
  point list: its first point is the scaled start point, its last point the scaled end
  point, and it holds at most \<open>|X1 - X0| + |Y1 - Y0| + 1\<close> points.
\<close>

theorem Bresenham_terminates_in_range:
  assumes "in_int (scaled x0)" and "in_int (scaled y0)"
    and "in_int (scaled x1)" and "in_int (scaled y1)"
    and "3 * \<bar>scaled x1 - scaled x0\<bar> \<le> INT_MAX"
    and "3 * \<bar>scaled y1 - scaled y0\<bar> \<le> INT_MAX"
  shows "\<exists>pts. Bresenham x0 y0 x1 y1 = Some (Inr pts) \<and>
           take 3 pts = [real_of_int (scaled x0) / 1000, real_of_int (scaled y0) / 1000, 0] \<and>
           drop (length pts - 3) pts =
             [real_of_int (scaled x1) / 1000, real_of_int (scaled y1) / 1000, 0] \<and>
           length pts \<le>
             3 * (nat \<bar>scaled x1 - scaled x0\<bar> + nat \<bar>scaled y1 - scaled y0\<bar> + 1)"
proof -
  define X0 Y0 X1 Y1 where "X0 = scaled x0" and "Y0 = scaled y0"
    and "X1 = scaled x1" and "Y1 = scaled y1"
  define dx dy where "dx = \<bar>X1 - X0\<bar>" and "dy = \<bar>Y1 - Y0\<bar>"
  define sx sy :: int where "sx = (if X0 < X1 then 1 else - 1)"
    and "sy = (if Y0 < Y1 then 1 else - 1)"
  note defs = X0_def Y0_def X1_def Y1_def
  from assms have r: "in_int X0" "in_int Y0" "in_int X1" "in_int Y1"
    and rng: "3 * dx \<le> INT_MAX" "3 * dy \<le> INT_MAX"
    by (simp_all add: defs dx_def dy_def)
  have d0: "0 \<le> dx" "0 \<le> dy"
    by (simp_all add: dx_def dy_def)
  have X1: "X1 = X0 + sx * dx" and Y1: "Y1 = Y0 + sy * dy"
    by (simp_all add: sx_def sy_def dx_def dy_def)
  have sgn: "sx = 1 \<or> sx = - 1" "sy = 1 \<or> sy = - 1"
    by (simp_all add: sx_def sy_def)
  from rng d0 have rd: "in_int dx" "in_int dy" "in_int (dx - dy)"
    by (simp_all add: in_int_def INT_MIN_def INT_MAX_def)
  have rdiff: "in_int (X1 - X0)" "in_int (Y1 - Y0)"
    using rng by (simp_all add: in_int_abs dx_def dy_def)
  have n: "nat dx + nat dy = nat (dx - 0 + (dy - 0))"
    using d0 by simp
  from Bresenham_loop_reaches_end [OF rng sgn r(1) r(3) [unfolded X1] r(2) r(4) [unfolded Y1]
      bres_inv_initial [OF d0] n, of "[]"]
  obtain out where
    run: "Bresenham_loop X1 Y1 dx dy sx sy (dx - dy, X0, Y0) [] = Some (Inr out)"
    and first: "take 3 out = [real_of_int X0 / 1000, real_of_int Y0 / 1000, 0]"
    and last: "drop (length out - 3) out = [real_of_int X1 / 1000, real_of_int Y1 / 1000, 0]"
    and len: "length out \<le> 3 * (nat dx + nat dy + 1)"
    by (auto simp add: X1 [symmetric] Y1 [symmetric])
  have "Bresenham x0 y0 x1 y1 = Bresenham_loop X1 Y1 dx dy sx sy (dx - dy, X0, Y0) []"
    using r rd rdiff
    by (simp add: Bresenham_def Let_def flip: defs dx_def dy_def sx_def sy_def)
  with run first last len show ?thesis
    by (auto simp add: defs dx_def dy_def)
qed

lemma scaled_numeral_simps:
  "scaled 0 = 0" "scaled 0.8 = 800" "scaled (- 0.8) = - 800" "scaled 3000000 = 3000000000"
  "scaled 0.002 = 2" "scaled 0.001 = 1"
  by (simp_all add: scaled_def c_round_def)

lemma Bresenham_loop_done:
  "x = X1 \<Longrightarrow> y = Y1 \<Longrightarrow>
   Bresenham_loop X1 Y1 dx dy sx sy (err, x, y) pts =
     Some (Inr (pts @ [real_of_int x / 1000, real_of_int y / 1000, 0]))"
  by (subst Bresenham_loop.simps) simp

lemma Bresenham_loop_step:
  "x \<noteq> X1 \<or> y \<noteq> Y1 \<Longrightarrow>
   Bresenham_loop X1 Y1 dx dy sx sy (err, x, y) pts =
     (case Bresenham_step dx dy sx sy (err, x, y) of
        Inl e \<Rightarrow> Some (Inl e)
      | Inr st1 \<Rightarrow> Bresenham_loop X1 Y1 dx dy sx sy st1
                    (pts @ [real_of_int x / 1000, real_of_int y / 1000, 0]))"
  by (subst Bresenham_loop.simps) auto

text \<open>A run of the model on the segment from (0, 0) to (0.002, 0.001): three points.\<close>

lemma Bresenham_example:
  "Bresenham 0 0 0.002 0.001 = Some (Inr [0, 0, 0, 0.001, 0, 0, 0.002, 0.001, 0])"
proof -
  have s1: "Bresenham_step 2 1 1 1 (1, 0, 0) = Inr (0, 1, 0)"
    and s2: "Bresenham_step 2 1 1 1 (0, 1, 0) = Inr (1, 2, 1)"
    by (simp_all add: Bresenham_step_def in_int_def INT_MIN_def INT_MAX_def)
  have "Bresenham_loop 2 1 2 1 1 1 (1, 0, 0) [] =
      Some (Inr [0, 0, 0, 0.001, 0, 0, 0.002, 0.001, 0])"
    by (simp add: Bresenham_loop_step Bresenham_loop_done s1 s2)
  then show ?thesis
    unfolding Bresenham_def scaled_numeral_simps
    by (simp add: in_int_def INT_MIN_def INT_MAX_def)
qed

theorem Bresenham_terminates_in_range_witness:
  "in_int (scaled (- 0.8)) \<and> in_int (scaled 0.8) \<and>
   3 * \<bar>scaled 0.8 - scaled (- 0.8)\<bar> \<le> INT_MAX \<and>
   (\<exists>pts. Bresenham (- 0.8) (- 0.8) 0.8 0.8 = Some (Inr pts) \<and>
      take 3 pts = [- 0.8, - 0.8, 0] \<and>
      drop (length pts - 3) pts = [0.8, 0.8, 0] \<and>
      length pts \<le> 9603)"
proof -
  have r: "in_int (scaled (- 0.8))" "in_int (scaled 0.8)"
    and d: "3 * \<bar>scaled 0.8 - scaled (- 0.8)\<bar> \<le> INT_MAX"
    unfolding scaled_numeral_simps by (simp_all add: in_int_def INT_MIN_def INT_MAX_def)
  from Bresenham_terminates_in_range [OF r(1) r(1) r(2) r(2) d d, unfolded scaled_numeral_simps]
  have "\<exists>pts. Bresenham (- 0.8) (- 0.8) 0.8 0.8 = Some (Inr pts) \<and>
      take 3 pts = [- 0.8, - 0.8, 0] \<and>
      drop (length pts - 3) pts = [0.8, 0.8, 0] \<and>
      length pts \<le> 9603"
    by simp
  with r d show ?thesis by blast
qed

text \<open>The start point (3000000, 0) scales to 3000000000, which no \<^verbatim>\<open>int\<close> holds: the
  conversion \<^verbatim>\<open>int(round(x0 * scale))\<close> is undefined and no point list is returned.\<close>

theorem Bresenham_overflow_counterexample:
  "\<not> in_int (scaled 3000000) \<and>
   Bresenham 3000000 0 0 0 = Some (Inl IntOverflow) \<and>
   \<not> (\<exists>pts. Bresenham 3000000 0 0 0 = Some (Inr pts))"
  unfolding Bresenham_def scaled_numeral_simps
  by (simp add: in_int_def INT_MIN_def INT_MAX_def)

end
